theory Spec2Isabelle
  imports Main "HOL-Library.Word"
begin

section \<open>Data model of \<^verbatim>\<open>src/lib/ws/lib/ws-client.ts\<close>\<close>

text \<open>
  The class \<^verbatim>\<open>TikTokWsClient\<close> is an event-driven object: handlers run one at a time
  on a single thread and mutate the fields of \<^verbatim>\<open>this\<close>. Every handler runs to completion
  but \<^verbatim>\<open>onMessage\<close>, which suspends at its \<^verbatim>\<open>await\<close> and is resumed later, after
  whatever other handlers have run in between. The embedding passes the state explicitly.
  Everything the class hands to the outside (bytes given to the connection, a close
  request, an emitted event, a resolved promise) is appended to one trace, in program
  order, so that "before" and "after" are positions in a list.
\<close>

type_synonym bytes = "8 word list"

text \<open>Object identities handed out by the runtime: a connection, a timer, a promise, a
  call of the decoder that has not returned yet.\<close>

type_synonym ws_connection = nat
type_synonym timeout = nat
type_synonym promise = nat
type_synonym decode = nat

type_synonym request_options = "(string \<times> string) list"

datatype error = Error string

text \<open>The \<^verbatim>\<open>Message\<close> type of the websocket package: \<^verbatim>\<open>type\<close> is
  \<^verbatim>\<open>'utf8'\<close> (with \<^verbatim>\<open>utf8Data\<close>) or \<^verbatim>\<open>'binary'\<close> (with \<^verbatim>\<open>binaryData\<close>).\<close>

datatype ws_message = Utf8Message string | BinaryMessage bytes

text \<open>\<^verbatim>\<open>WebSocketParams\<close>: the heartbeat reads \<^verbatim>\<open>room_id\<close>; the other entries only
  reach the query string.\<close>

record web_socket_params =
  room_id :: string
  other_params :: "(string \<times> string) list"

record heartbeat_message =
  hb_roomId :: string

record im_enter_room_message =
  roomId :: string
  roomTag :: string
  liveRegion :: string
  liveId :: string
  identity :: string
  cursor :: string
  accountType :: string
  enterUniqueId :: string
  filterWelcomeMsg :: string
  isAnchorContinueKeepMsg :: bool

text \<open>The object literal given to \<^verbatim>\<open>createBaseWebcastPushFrame\<close>: every key is
  optional; a key that is left out or set to \<^verbatim>\<open>undefined\<close> is \<open>None\<close>.\<close>

record push_frame =
  frame_logId :: "string option"
  frame_payloadEncoding :: "string option"
  frame_payloadType :: "string option"
  frame_payload :: "bytes option"
  frame_service :: "string option"
  frame_method :: "string option"
  frame_headers :: "(string \<rightharpoonup> string) option"

record fetch_result =
  needsAck :: bool
  internalExt :: string

text \<open>\<^verbatim>\<open>DecodedWebcastPushFrame\<close>, with the fields the client reads. An absent
  \<^verbatim>\<open>logId\<close> is \<open>None\<close>.\<close>

record decoded_push_frame =
  logId :: "string option"
  payloadType :: string
  protoMessageFetchResult :: "fetch_result option"

text \<open>
  The collaborators the file imports and does not define: the protocol codec
  (\<^verbatim>\<open>HeartbeatMessage.encode\<close>, \<^verbatim>\<open>WebcastImEnterRoomMessage.encode\<close>,
  \<^verbatim>\<open>createBaseWebcastPushFrame\<close>, \<^verbatim>\<open>deserializeWebSocketMessage\<close>), the platform's
  \<^verbatim>\<open>TextEncoder\<close> and \<^verbatim>\<open>URLSearchParams\<close>, and two constants of \<^verbatim>\<open>Config\<close>. They
  are parameters of the model. A decode that throws is \<open>Inl\<close> of the error.
\<close>

record deps =
  heartbeatEncode :: "heartbeat_message \<Rightarrow> bytes"
  imEnterRoomEncode :: "im_enter_room_message \<Rightarrow> bytes"
  createBaseWebcastPushFrame :: "push_frame \<Rightarrow> bytes"
  textEncode :: "string \<Rightarrow> bytes"
  deserializeWebSocketMessage :: "bytes \<Rightarrow> error + decoded_push_frame"
  urlSearchParams :: "web_socket_params \<Rightarrow> string"
  DEFAULT_WS_CLIENT_PARAMS_APPEND_PARAMETER :: string
  TIKTOK_HOST_WEB :: string

text \<open>The events of \<^verbatim>\<open>EventMap\<close> that the class itself emits.\<close>

datatype emitted =
    Close
  | MessageDecodingFailed error
  | UnknownResponse ws_message
  | ProtoMessageFetchResult fetch_result
  | WebSocketData ws_message
  | ImEnteredRoom decoded_push_frame

datatype effect =
    ClientConnect string string string "string \<rightharpoonup> string" request_options
  | ConnSendBytes ws_connection bytes
  | ConnClose ws_connection nat
  | Emit emitted
  | Resolved promise

text \<open>The fields of the class.\<close>

record client =
  connection :: "ws_connection option"
  pingInterval :: "timeout option"
  wsHeaders :: "string \<rightharpoonup> string"
  wsUrlWithParams :: string
  webSocketParams :: web_socket_params
  webSocketPingIntervalMs :: nat

text \<open>
  The client together with what the runtime keeps for it: the trace, the interval timers
  that are armed (handle and period), the promises whose resolver is registered by
  \<^verbatim>\<open>once('close', ...)\<close>, the promises already resolved, and the runs of
  \<^verbatim>\<open>onMessage\<close> that are suspended at their \<^verbatim>\<open>await\<close>, each with what its call of the
  decoder will return.
\<close>

record session = client +
  trace :: "effect list"
  intervals :: "(timeout \<times> nat) list"
  nextTimeout :: timeout
  closeOnce :: "promise list"
  settled :: "promise list"
  nextPromise :: promise
  decoding :: "(decode \<times> (error + decoded_push_frame)) list"
  nextDecode :: decode

section \<open>Operations\<close>

text \<open>The constructor: \<^verbatim>\<open>webSocketPingIntervalMs\<close> defaults to 10000, the headers are
  \<^verbatim>\<open>{ Cookie: cookieJar.getCookieString(), ...(webSocketHeaders || {}) }\<close>, and
  \<^verbatim>\<open>connect\<close> is called at once.\<close>

definition mergeHeaders :: "string \<Rightarrow> (string \<rightharpoonup> string) option \<Rightarrow> (string \<rightharpoonup> string)" where
  "mergeHeaders cookieString webSocketHeaders =
     [''Cookie'' \<mapsto> cookieString] ++ (case webSocketHeaders of None \<Rightarrow> Map.empty | Some h \<Rightarrow> h)"

definition TikTokWsClient ::
  "deps \<Rightarrow> string \<Rightarrow> string \<Rightarrow> web_socket_params \<Rightarrow> (string \<rightharpoonup> string) option \<Rightarrow>
   request_options \<Rightarrow> nat option \<Rightarrow> session" where
  "TikTokWsClient d wsUrl cookieString params webSocketHeaders webSocketOptions intervalMs =
     (let url = wsUrl @ ''?'' @ urlSearchParams d params @ DEFAULT_WS_CLIENT_PARAMS_APPEND_PARAMETER d;
          hdrs = mergeHeaders cookieString webSocketHeaders
      in \<lparr> connection = None,
           pingInterval = None,
           wsHeaders = hdrs,
           wsUrlWithParams = url,
           webSocketParams = params,
           webSocketPingIntervalMs = (case intervalMs of None \<Rightarrow> 10000 | Some ms \<Rightarrow> ms),
           trace = [ClientConnect url '''' (''https://'' @ TIKTOK_HOST_WEB d) hdrs webSocketOptions],
           intervals = [],
           nextTimeout = 0,
           closeOnce = [],
           settled = [],
           nextPromise = 0,
           decoding = [],
           nextDecode = 0 \<rparr>)"

definition sendBytes :: "bytes \<Rightarrow> session \<Rightarrow> bool \<times> session" where
  "sendBytes data st =
     (case connection st of
        Some c \<Rightarrow> (True, st\<lparr>trace := trace st @ [ConnSendBytes c data]\<rparr>)
      | None \<Rightarrow> (False, st))"

definition heartbeatFrame :: "deps \<Rightarrow> web_socket_params \<Rightarrow> push_frame" where
  "heartbeatFrame d params =
     \<lparr> frame_logId = None,
       frame_payloadEncoding = Some ''pb'',
       frame_payloadType = Some ''hb'',
       frame_payload = Some (heartbeatEncode d \<lparr> hb_roomId = room_id params \<rparr>),
       frame_service = None,
       frame_method = None,
       frame_headers = Some Map.empty \<rparr>"

definition sendHeartbeat :: "deps \<Rightarrow> session \<Rightarrow> session" where
  "sendHeartbeat d st =
     snd (sendBytes (createBaseWebcastPushFrame d (heartbeatFrame d (webSocketParams st))) st)"

definition imEnterRoomMessage :: "string \<Rightarrow> im_enter_room_message" where
  "imEnterRoomMessage r =
     \<lparr> roomId = r,
       roomTag = '''',
       liveRegion = '''',
       liveId = ''12'',
       identity = ''audience'',
       cursor = '''',
       accountType = ''0'',
       enterUniqueId = '''',
       filterWelcomeMsg = ''0'',
       isAnchorContinueKeepMsg = False \<rparr>"

definition imEnterRoomFrame :: "deps \<Rightarrow> string \<Rightarrow> push_frame" where
  "imEnterRoomFrame d r =
     \<lparr> frame_logId = None,
       frame_payloadEncoding = Some ''pb'',
       frame_payloadType = Some ''im_enter_room'',
       frame_payload = Some (imEnterRoomEncode d (imEnterRoomMessage r)),
       frame_service = None,
       frame_method = None,
       frame_headers = None \<rparr>"

definition switchRooms :: "deps \<Rightarrow> string \<Rightarrow> session \<Rightarrow> session" where
  "switchRooms d r st = snd (sendBytes (createBaseWebcastPushFrame d (imEnterRoomFrame d r)) st)"

definition ackFrame :: "deps \<Rightarrow> string \<Rightarrow> string \<Rightarrow> push_frame" where
  "ackFrame d lid ext =
     \<lparr> frame_logId = Some lid,
       frame_payloadEncoding = Some ''pb'',
       frame_payloadType = Some ''ack'',
       frame_payload = Some (textEncode d ext),
       frame_service = None,
       frame_method = None,
       frame_headers = None \<rparr>"

text \<open>\<^verbatim>\<open>sendAck\<close> destructures \<^verbatim>\<open>protoMessageFetchResult: { internalExt }\<close> in
  its parameter list: on a container without a fetch result that binding throws a
  \<^verbatim>\<open>TypeError\<close> before the body runs. \<^verbatim>\<open>!logId\<close> holds of an absent and of an
  empty string.\<close>

definition sendAck :: "deps \<Rightarrow> decoded_push_frame \<Rightarrow> session \<Rightarrow> error + session" where
  "sendAck d decodedContainer st =
     (case protoMessageFetchResult decodedContainer of
        None \<Rightarrow> Inl (Error ''TypeError'')
      | Some r \<Rightarrow>
          (case logId decodedContainer of
             None \<Rightarrow> Inr st
           | Some l \<Rightarrow>
               (if l = [] then Inr st
                else Inr (snd (sendBytes
                       (createBaseWebcastPushFrame d (ackFrame d l (internalExt r))) st)))))"

definition emit :: "emitted \<Rightarrow> session \<Rightarrow> session" where
  "emit e st = st\<lparr>trace := trace st @ [Emit e]\<rparr>"

definition emitIfEnteredRoom :: "decoded_push_frame \<Rightarrow> session \<Rightarrow> session" where
  "emitIfEnteredRoom decodedContainer st =
     (if payloadType decodedContainer = ''im_enter_room_resp''
      then emit (ImEnteredRoom decodedContainer) st
      else st)"

text \<open>The body of \<^verbatim>\<open>onMessage\<close> after the \<^verbatim>\<open>await\<close>: the \<^verbatim>\<open>try\<close> block on a decoded
  container, the \<^verbatim>\<open>catch\<close> block on an error, whether the decoder threw it or a statement
  of the \<^verbatim>\<open>try\<close> block did. It reads the connection as it is when the decoder has
  returned, not as it was when the message arrived.\<close>

definition onDecoded :: "deps \<Rightarrow> error + decoded_push_frame \<Rightarrow> session \<Rightarrow> session" where
  "onDecoded d res st =
     (case res of
        Inl err \<Rightarrow> emit (MessageDecodingFailed err) st
      | Inr decodedContainer \<Rightarrow>
          (case protoMessageFetchResult decodedContainer of
             None \<Rightarrow> emitIfEnteredRoom decodedContainer st
           | Some r \<Rightarrow>
               (if needsAck r
                then (case sendAck d decodedContainer st of
                        Inl err \<Rightarrow> emit (MessageDecodingFailed err) st
                      | Inr st1 \<Rightarrow>
                          emitIfEnteredRoom decodedContainer (emit (ProtoMessageFetchResult r) st1))
                else emitIfEnteredRoom decodedContainer (emit (ProtoMessageFetchResult r) st))))"

text \<open>
  \<^verbatim>\<open>onMessage\<close> up to its \<^verbatim>\<open>await\<close>: the raw-data event, the early return on a
  message that is not binary, and the call of the decoder, whose outcome the suspended
  handler waits for. \<open>onDecoded\<close> above is the rest of the handler; it runs when the
  decoder has returned (\<open>onDecodeSettled\<close>), on the state the client has by then.
\<close>

definition onMessage :: "deps \<Rightarrow> ws_message \<Rightarrow> session \<Rightarrow> session" where
  "onMessage d message st =
     (let st1 = emit (WebSocketData message) st
      in case message of
           Utf8Message _ \<Rightarrow> emit (UnknownResponse message) st1
         | BinaryMessage binaryData \<Rightarrow>
             st1\<lparr>decoding := decoding st1 @
                    [(nextDecode st1, deserializeWebSocketMessage d binaryData)],
                 nextDecode := Suc (nextDecode st1)\<rparr>)"

text \<open>The decoder's call \<open>k\<close> returns: the handler that awaits it is no longer suspended
  and runs its second half on the outcome. A call that nobody awaits resumes nothing.\<close>

definition dropDecode :: "decode \<Rightarrow> session \<Rightarrow> session" where
  "dropDecode k st = st\<lparr>decoding := filter (\<lambda>(j, _). j \<noteq> k) (decoding st)\<rparr>"

definition onDecodeSettled :: "deps \<Rightarrow> decode \<Rightarrow> session \<Rightarrow> session" where
  "onDecodeSettled d k st =
     (case map_of (decoding st) k of
        None \<Rightarrow> st
      | Some res \<Rightarrow> onDecoded d res (dropDecode k st))"

text \<open>Timers: \<^verbatim>\<open>setInterval\<close> arms a new timer and returns its handle;
  \<^verbatim>\<open>clearInterval\<close> disarms it and ignores \<^verbatim>\<open>null\<close>.\<close>

definition setInterval :: "nat \<Rightarrow> session \<Rightarrow> timeout \<times> session" where
  "setInterval ms st =
     (nextTimeout st,
      st\<lparr>intervals := intervals st @ [(nextTimeout st, ms)], nextTimeout := Suc (nextTimeout st)\<rparr>)"

definition clearInterval :: "timeout option \<Rightarrow> session \<Rightarrow> session" where
  "clearInterval h st =
     (case h of
        None \<Rightarrow> st
      | Some t \<Rightarrow> st\<lparr>intervals := filter (\<lambda>(t', _). t' \<noteq> t) (intervals st)\<rparr>)"

text \<open>\<^verbatim>\<open>onConnect\<close>, statement by statement. Its last two lines register
  \<^verbatim>\<open>onMessage\<close> and \<^verbatim>\<open>onDisconnect\<close> on the connection; the event loop below delivers
  the connection's messages and its close event to them.\<close>

definition onConnect :: "deps \<Rightarrow> ws_connection \<Rightarrow> session \<Rightarrow> session" where
  "onConnect d wsConnection st =
     (let st1 = sendHeartbeat d st;
          st2 = st1\<lparr>connection := Some wsConnection\<rparr>;
          (h, st3) = setInterval (webSocketPingIntervalMs st2) st2
      in st3\<lparr>pingInterval := Some h\<rparr>)"

text \<open>Resolving a promise a second time has no effect.\<close>

definition resolve :: "promise \<Rightarrow> session \<Rightarrow> session" where
  "resolve p st =
     (if p \<in> set (settled st) then st
      else st\<lparr>trace := trace st @ [Resolved p], settled := settled st @ [p]\<rparr>)"

text \<open>\<^verbatim>\<open>this.emit('close')\<close> also runs the listeners that \<^verbatim>\<open>close()\<close> registered
  with \<^verbatim>\<open>once\<close>, in the order of registration, and removes them.\<close>

definition emitClose :: "session \<Rightarrow> session" where
  "emitClose st = fold resolve (closeOnce st) ((emit Close st)\<lparr>closeOnce := []\<rparr>)"

definition onDisconnect :: "session \<Rightarrow> session" where
  "onDisconnect st =
     emitClose ((clearInterval (pingInterval st) st)\<lparr>pingInterval := None, connection := None\<rparr>)"

definition close :: "session \<Rightarrow> promise \<times> session" where
  "close st =
     (let p = nextPromise st;
          st1 = st\<lparr>nextPromise := Suc p, closeOnce := closeOnce st @ [p]\<rparr>
      in case connection st1 of
           Some c \<Rightarrow> (p, st1\<lparr>trace := trace st1 @ [ConnClose c 1000]\<rparr>)
         | None \<Rightarrow> (p, resolve p st1))"

section \<open>The event loop\<close>

text \<open>
  What can happen to a client: the transport reports a connection (\<^verbatim>\<open>'connect'\<close>), the
  connection delivers a message or reports its end (\<^verbatim>\<open>'message'\<close>, \<^verbatim>\<open>'close'\<close>, the
  handlers registered in \<^verbatim>\<open>onConnect\<close>), a call of the decoder returns and the handler
  that awaits it is resumed, a timer fires, or the application calls one of the public
  methods. A timer that is not armed does not fire, and the decoder's calls may return in
  any order, with any other event in between.
\<close>

datatype stimulus =
    TransportConnect ws_connection
  | ConnectionMessage ws_message
  | ConnectionClose
  | DecodeSettled decode
  | Tick timeout
  | CallSendBytes bytes
  | CallSwitchRooms string
  | CallClose

fun step :: "deps \<Rightarrow> stimulus \<Rightarrow> session \<Rightarrow> session" where
  "step d (TransportConnect c) st = onConnect d c st"
| "step d (ConnectionMessage m) st = onMessage d m st"
| "step d ConnectionClose st = onDisconnect st"
| "step d (DecodeSettled k) st = onDecodeSettled d k st"
| "step d (Tick t) st = (if t \<in> fst ` set (intervals st) then sendHeartbeat d st else st)"
| "step d (CallSendBytes b) st = snd (sendBytes b st)"
| "step d (CallSwitchRooms r) st = switchRooms d r st"
| "step d CallClose st = snd (close st)"

definition run :: "deps \<Rightarrow> stimulus list \<Rightarrow> session \<Rightarrow> session" where
  "run d evs st = fold (step d) evs st"

text \<open>The bytes handed to a connection, in order.\<close>

fun sent :: "effect list \<Rightarrow> bytes list" where
  "sent [] = []"
| "sent (ConnSendBytes c b # es) = b # sent es"
| "sent (e # es) = sent es"


section \<open>The promises of \<^verbatim>\<open>close()\<close>\<close>

text \<open>
  Promise identities are handed out in increasing order, so every promise that is resolved
  or waits for the close event is older than the next one. A promise is pending when its
  resolver waits for the close event and it has not been resolved.
\<close>

definition promisesFresh :: "session \<Rightarrow> bool" where
  "promisesFresh st = list_all (\<lambda>p. p < nextPromise st) (settled st @ closeOnce st)"

definition pending :: "promise \<Rightarrow> session \<Rightarrow> bool" where
  "pending p st = (p \<in> set (closeOnce st) \<and> p \<notin> set (settled st) \<and> promisesFresh st)"

text \<open>The same holds of the decoder's calls: every call that has not returned is older
  than the next one.\<close>

definition decodesFresh :: "session \<Rightarrow> bool" where
  "decodesFresh st = list_all (\<lambda>(j, _). j < nextDecode st) (decoding st)"

section \<open>A stand-in for the collaborators\<close>

text \<open>
  Concrete collaborators, used only to run the model on concrete inputs: text is encoded
  byte by byte, a message body is its one string, a frame is its payload, and the decoder
  knows three inputs (a fetch result that wants an acknowledgement, a room-entry response
  that carries such a fetch result as well, a fetch result without a log id) and fails on
  every other.
\<close>

definition stubText :: "string \<Rightarrow> bytes" where
  "stubText s = map of_char s"

definition stubDecode :: "bytes \<Rightarrow> error + decoded_push_frame" where
  "stubDecode b =
     (if b = [1] then
        Inr \<lparr> logId = Some ''L1'', payloadType = ''msg'',
              protoMessageFetchResult = Some \<lparr> needsAck = True, internalExt = ''abc'' \<rparr> \<rparr>
      else if b = [2] then
        Inr \<lparr> logId = Some ''L2'', payloadType = ''im_enter_room_resp'',
              protoMessageFetchResult = Some \<lparr> needsAck = True, internalExt = ''xyz'' \<rparr> \<rparr>
      else if b = [3] then
        Inr \<lparr> logId = None, payloadType = ''msg'',
              protoMessageFetchResult = Some \<lparr> needsAck = True, internalExt = ''q'' \<rparr> \<rparr>
      else Inl (Error ''malformed''))"

definition stubDeps :: deps where
  "stubDeps =
     \<lparr> heartbeatEncode = (\<lambda>m. stubText (hb_roomId m)),
       imEnterRoomEncode = (\<lambda>m. stubText (roomId m)),
       createBaseWebcastPushFrame = (\<lambda>f. case frame_payload f of None \<Rightarrow> [] | Some p \<Rightarrow> p),
       textEncode = stubText,
       deserializeWebSocketMessage = stubDecode,
       urlSearchParams = (\<lambda>p. ''room_id='' @ room_id p),
       DEFAULT_WS_CLIENT_PARAMS_APPEND_PARAMETER = ''&version_code=270000'',
       TIKTOK_HOST_WEB = ''www.tiktok.com'' \<rparr>"

text \<open>A client for room 123 as the constructor leaves it, and the same client after the
  transport has reported connection 1.\<close>

definition freshClient :: session where
  "freshClient =
     TikTokWsClient stubDeps ''wss://host/im'' ''sid=1''
       \<lparr> room_id = ''123'', other_params = [] \<rparr> None [] None"

definition connectedClient :: session where
  "connectedClient = onConnect stubDeps 1 freshClient"

section \<open>Basic facts\<close>

lemma sendBytes_connected:
  "connection st = Some c \<Longrightarrow> sendBytes b st = (True, st\<lparr>trace := trace st @ [ConnSendBytes c b]\<rparr>)"
  by (simp add: sendBytes_def)

lemma sendBytes_disconnected: "connection st = None \<Longrightarrow> sendBytes b st = (False, st)"
  by (simp add: sendBytes_def)

lemma sent_append: "sent (xs @ ys) = sent xs @ sent ys"
  by (induction xs rule: sent.induct) simp_all

lemma freshClient_eq:
  "freshClient =
     \<lparr> connection = None, pingInterval = None,
       wsHeaders = [''Cookie'' \<mapsto> ''sid=1''],
       wsUrlWithParams = ''wss://host/im?room_id=123&version_code=270000'',
       webSocketParams = \<lparr> room_id = ''123'', other_params = [] \<rparr>,
       webSocketPingIntervalMs = 10000,
       trace = [ClientConnect ''wss://host/im?room_id=123&version_code=270000'' ''''
                  ''https://www.tiktok.com'' [''Cookie'' \<mapsto> ''sid=1''] []],
       intervals = [], nextTimeout = 0, closeOnce = [], settled = [], nextPromise = 0,
       decoding = [], nextDecode = 0 \<rparr>"
  by (simp add: freshClient_def TikTokWsClient_def mergeHeaders_def stubDeps_def Let_def)

lemma connectedClient_eq:
  "connectedClient = freshClient\<lparr>connection := Some 1, pingInterval := Some 0,
      intervals := [(0, 10000)], nextTimeout := Suc 0\<rparr>"
  by (simp add: connectedClient_def onConnect_def sendHeartbeat_def sendBytes_def
      setInterval_def freshClient_eq)

lemma onConnect_sends_nothing:
  "connection st = None \<Longrightarrow> trace (onConnect d c st) = trace st"
  by (simp add: onConnect_def sendHeartbeat_def sendBytes_def setInterval_def)

subsection \<open>What \<^verbatim>\<open>onMessage\<close> does, case by case\<close>

lemma onDecoded_container:
  "onDecoded d (Inr dc) st =
     st\<lparr>trace := trace st @
        (case protoMessageFetchResult dc of
           None \<Rightarrow> []
         | Some r \<Rightarrow>
             (if needsAck r
              then (case (connection st, logId dc) of
                      (Some c, Some l) \<Rightarrow>
                        if l = [] then []
                        else [ConnSendBytes c
                                (createBaseWebcastPushFrame d (ackFrame d l (internalExt r)))]
                    | _ \<Rightarrow> [])
              else []) @
             [Emit (ProtoMessageFetchResult r)]) @
        (if payloadType dc = ''im_enter_room_resp'' then [Emit (ImEnteredRoom dc)] else [])\<rparr>"
  by (simp add: onDecoded_def sendAck_def sendBytes_def emit_def emitIfEnteredRoom_def
      split: option.splits)

lemma onDecoded_error:
  "onDecoded d (Inl err) st = st\<lparr>trace := trace st @ [Emit (MessageDecodingFailed err)]\<rparr>"
  by (simp add: onDecoded_def emit_def)

lemma onMessage_binary:
  "onMessage d (BinaryMessage b) st =
     st\<lparr>trace := trace st @ [Emit (WebSocketData (BinaryMessage b))],
        decoding := decoding st @ [(nextDecode st, deserializeWebSocketMessage d b)],
        nextDecode := Suc (nextDecode st)\<rparr>"
  by (simp add: onMessage_def emit_def Let_def)

lemma onMessage_text:
  "onMessage d (Utf8Message s) st =
     st\<lparr>trace := trace st @
        [Emit (WebSocketData (Utf8Message s)), Emit (UnknownResponse (Utf8Message s))]\<rparr>"
  by (simp add: onMessage_def emit_def Let_def)

subsection \<open>Promises and traces along a run\<close>

lemma pending_cong:
  "settled st' = settled st \<Longrightarrow> closeOnce st' = closeOnce st \<Longrightarrow>
   nextPromise st' = nextPromise st \<Longrightarrow> pending p st' = pending p st"
  by (simp add: pending_def promisesFresh_def)

lemma sendBytes_promises:
  "settled (snd (sendBytes b st)) = settled st"
  "closeOnce (snd (sendBytes b st)) = closeOnce st"
  "nextPromise (snd (sendBytes b st)) = nextPromise st"
  by (simp_all add: sendBytes_def split: option.splits)

lemma sendBytes_trace: "\<exists>zs. trace (snd (sendBytes b st)) = trace st @ zs"
  by (cases "connection st") (simp_all add: sendBytes_def)

lemma onDecoded_promises:
  "settled (onDecoded d res st) = settled st"
  "closeOnce (onDecoded d res st) = closeOnce st"
  "nextPromise (onDecoded d res st) = nextPromise st"
  by (cases res; simp add: onDecoded_container onDecoded_error)+

lemma onDecoded_trace: "\<exists>zs. trace (onDecoded d res st) = trace st @ zs"
  by (cases res) (simp_all add: onDecoded_container onDecoded_error)

lemma onMessage_promises:
  "settled (onMessage d m st) = settled st"
  "closeOnce (onMessage d m st) = closeOnce st"
  "nextPromise (onMessage d m st) = nextPromise st"
  by (cases m; simp add: onMessage_text onMessage_binary)+

lemma onMessage_trace: "\<exists>zs. trace (onMessage d m st) = trace st @ zs"
  by (cases m) (simp_all add: onMessage_text onMessage_binary)

lemma onDecodeSettled_promises:
  "settled (onDecodeSettled d k st) = settled st"
  "closeOnce (onDecodeSettled d k st) = closeOnce st"
  "nextPromise (onDecodeSettled d k st) = nextPromise st"
  by (simp_all add: onDecodeSettled_def onDecoded_promises dropDecode_def split: option.splits)

lemma onDecodeSettled_trace: "\<exists>zs. trace (onDecodeSettled d k st) = trace st @ zs"
proof (cases "map_of (decoding st) k")
  case None
  then show ?thesis by (simp add: onDecodeSettled_def)
next
  case (Some res)
  obtain zs where "trace (onDecoded d res (dropDecode k st)) = trace (dropDecode k st) @ zs"
    using onDecoded_trace by blast
  with Some show ?thesis by (simp add: onDecodeSettled_def dropDecode_def)
qed

lemma onConnect_promises:
  "settled (onConnect d c st) = settled st"
  "closeOnce (onConnect d c st) = closeOnce st"
  "nextPromise (onConnect d c st) = nextPromise st"
  by (simp_all add: onConnect_def sendHeartbeat_def setInterval_def sendBytes_promises Let_def)

lemma onConnect_trace: "\<exists>zs. trace (onConnect d c st) = trace st @ zs"
  by (simp add: onConnect_def sendHeartbeat_def setInterval_def sendBytes_trace Let_def)

lemma close_connected:
  "connection st = Some c \<Longrightarrow>
   close st = (nextPromise st,
     st\<lparr>nextPromise := Suc (nextPromise st), closeOnce := closeOnce st @ [nextPromise st],
        trace := trace st @ [ConnClose c 1000]\<rparr>)"
  by (simp add: close_def Let_def)

lemma close_disconnected:
  "connection st = None \<Longrightarrow> promisesFresh st \<Longrightarrow>
   close st = (nextPromise st,
     st\<lparr>nextPromise := Suc (nextPromise st), closeOnce := closeOnce st @ [nextPromise st],
        trace := trace st @ [Resolved (nextPromise st)],
        settled := settled st @ [nextPromise st]\<rparr>)"
  by (auto simp add: close_def Let_def resolve_def promisesFresh_def list_all_iff)

lemma step_pending:
  assumes "s \<noteq> ConnectionClose" and "pending p st"
  shows "pending p (step d s st)"
proof (cases s)
  case (TransportConnect c)
  with assms show ?thesis by (simp add: onConnect_promises cong: pending_cong)
next
  case (ConnectionMessage m)
  with assms show ?thesis by (simp add: onMessage_promises cong: pending_cong)
next
  case ConnectionClose
  with assms show ?thesis by simp
next
  case (DecodeSettled k)
  with assms show ?thesis by (simp add: onDecodeSettled_promises cong: pending_cong)
next
  case (Tick t)
  with assms show ?thesis
    by (simp add: sendHeartbeat_def sendBytes_promises cong: pending_cong)
next
  case (CallSendBytes b)
  with assms show ?thesis by (simp add: sendBytes_promises cong: pending_cong)
next
  case (CallSwitchRooms r)
  with assms show ?thesis
    by (simp add: switchRooms_def sendBytes_promises cong: pending_cong)
next
  case CallClose
  show ?thesis
  proof (cases "connection st")
    case None
    with assms CallClose show ?thesis
      by (auto simp add: pending_def close_disconnected promisesFresh_def list_all_iff
          intro!: less_SucI)
  next
    case (Some c)
    with assms CallClose show ?thesis
      by (auto simp add: pending_def close_connected promisesFresh_def list_all_iff
          intro!: less_SucI)
  qed
qed

lemma fold_resolve_trace: "\<exists>zs. trace (fold resolve ps st) = trace st @ zs"
proof (induction ps arbitrary: st)
  case Nil
  show ?case by simp
next
  case (Cons q ps)
  obtain zs where "trace (fold resolve ps (resolve q st)) = trace (resolve q st) @ zs"
    using Cons.IH by blast
  moreover obtain ws where "trace (resolve q st) = trace st @ ws"
    by (cases "q \<in> set (settled st)") (simp_all add: resolve_def)
  ultimately show ?case by simp
qed

lemma fold_resolve_settles:
  "p \<in> set ps \<Longrightarrow> p \<notin> set (settled st) \<Longrightarrow>
   \<exists>xs ys. trace (fold resolve ps st) = trace st @ xs @ [Resolved p] @ ys"
proof (induction ps arbitrary: st)
  case Nil
  then show ?case by simp
next
  case (Cons q ps)
  show ?case
  proof (cases "q = p")
    case True
    obtain zs where "trace (fold resolve ps (resolve p st)) = trace (resolve p st) @ zs"
      using fold_resolve_trace by blast
    with Cons.prems True have "trace (fold resolve (q # ps) st) = trace st @ [] @ [Resolved p] @ zs"
      by (simp add: resolve_def)
    then show ?thesis by blast
  next
    case False
    with Cons.prems have "p \<in> set ps" and "p \<notin> set (settled (resolve q st))"
      by (auto simp add: resolve_def)
    from Cons.IH [OF this] obtain xs ys where
      "trace (fold resolve ps (resolve q st)) = trace (resolve q st) @ xs @ [Resolved p] @ ys"
      by blast
    moreover obtain ws where "trace (resolve q st) = trace st @ ws"
      by (cases "q \<in> set (settled st)") (simp_all add: resolve_def)
    ultimately have "trace (fold resolve (q # ps) st) = trace st @ (ws @ xs) @ [Resolved p] @ ys"
      by simp
    then show ?thesis by blast
  qed
qed

lemma fold_resolve_settled:
  "set (settled (fold resolve ps st)) = set (settled st) \<union> set ps"
  by (induction ps arbitrary: st) (auto simp add: resolve_def)

lemma fold_resolve_fields:
  "nextPromise (fold resolve ps st) = nextPromise st"
  "closeOnce (fold resolve ps st) = closeOnce st"
  "connection (fold resolve ps st) = connection st"
  "intervals (fold resolve ps st) = intervals st"
  by (induction ps arbitrary: st) (simp_all add: resolve_def)

lemma onDisconnect_settles:
  assumes "pending p st"
  shows "\<exists>xs ys. trace (onDisconnect st) = trace st @ xs @ [Resolved p] @ ys"
proof -
  let ?st1 = "(emit Close ((clearInterval (pingInterval st) st)
      \<lparr>pingInterval := None, connection := None\<rparr>))\<lparr>closeOnce := []\<rparr>"
  have t: "trace ?st1 = trace st @ [Emit Close]" and s: "settled ?st1 = settled st"
    by (simp_all add: emit_def clearInterval_def split: option.splits)
  from assms have "p \<in> set (closeOnce st)" and "p \<notin> set (settled ?st1)"
    by (simp_all add: pending_def s)
  from fold_resolve_settles [OF this] obtain xs ys where
    "trace (fold resolve (closeOnce st) ?st1) = trace ?st1 @ xs @ [Resolved p] @ ys" by blast
  then have "trace (onDisconnect st) = trace st @ ([Emit Close] @ xs) @ [Resolved p] @ ys"
    by (simp add: onDisconnect_def emitClose_def t emit_def clearInterval_def split: option.splits)
  then show ?thesis by blast
qed

lemma onDisconnect_trace: "\<exists>zs. trace (onDisconnect st) = trace st @ zs"
proof -
  let ?st1 = "(emit Close ((clearInterval (pingInterval st) st)
      \<lparr>pingInterval := None, connection := None\<rparr>))\<lparr>closeOnce := []\<rparr>"
  have t: "trace ?st1 = trace st @ [Emit Close]"
    by (simp add: emit_def clearInterval_def split: option.splits)
  obtain zs where "trace (fold resolve (closeOnce st) ?st1) = trace ?st1 @ zs"
    using fold_resolve_trace by blast
  then have "trace (onDisconnect st) = trace st @ [Emit Close] @ zs"
    by (simp add: onDisconnect_def emitClose_def t emit_def clearInterval_def split: option.splits)
  then show ?thesis by blast
qed

lemma close_trace: "\<exists>zs. trace (snd (close st)) = trace st @ zs"
  by (cases "connection st") (simp_all add: close_def Let_def resolve_def)

lemma step_trace: "\<exists>zs. trace (step d s st) = trace st @ zs"
proof (cases s)
  case (TransportConnect c)
  then show ?thesis by (simp add: onConnect_trace)
next
  case (ConnectionMessage m)
  then show ?thesis by (simp add: onMessage_trace)
next
  case ConnectionClose
  then show ?thesis by (simp add: onDisconnect_trace)
next
  case (DecodeSettled k)
  then show ?thesis by (simp add: onDecodeSettled_trace)
next
  case (Tick t)
  then show ?thesis by (simp add: sendHeartbeat_def sendBytes_trace)
next
  case (CallSendBytes b)
  then show ?thesis by (simp add: sendBytes_trace)
next
  case (CallSwitchRooms r)
  then show ?thesis by (simp add: switchRooms_def sendBytes_trace)
next
  case CallClose
  then show ?thesis by (simp add: close_trace)
qed

lemma run_pending:
  "ConnectionClose \<notin> set evs \<Longrightarrow> pending p st \<Longrightarrow> pending p (run d evs st)"
  unfolding run_def
proof (induction evs arbitrary: st)
  case Nil
  then show ?case by simp
next
  case (Cons e evs)
  from Cons.prems have "e \<noteq> ConnectionClose" and "ConnectionClose \<notin> set evs" by auto
  with Cons.prems(2) have "pending p (step d e st)" by (simp add: step_pending)
  with Cons.IH \<open>ConnectionClose \<notin> set evs\<close> show ?case by simp
qed

lemma run_trace: "\<exists>zs. trace (run d evs st) = trace st @ zs"
  unfolding run_def
proof (induction evs arbitrary: st)
  case Nil
  show ?case by simp
next
  case (Cons e evs)
  obtain zs where "trace (fold (step d) evs (step d e st)) = trace (step d e st) @ zs"
    using Cons.IH by blast
  moreover obtain ws where "trace (step d e st) = trace st @ ws"
    using step_trace by blast
  ultimately show ?case by simp
qed

lemma run_snoc: "run d (evs @ [e]) st = step d e (run d evs st)"
  by (simp add: run_def)

lemma promisesFresh_init: "promisesFresh (TikTokWsClient d u c p h opts i)"
  by (simp add: promisesFresh_def TikTokWsClient_def Let_def)

lemma promisesFresh_cong:
  "settled st' = settled st \<Longrightarrow> closeOnce st' = closeOnce st \<Longrightarrow>
   nextPromise st' = nextPromise st \<Longrightarrow> promisesFresh st' = promisesFresh st"
  by (simp add: promisesFresh_def)

lemma onDisconnect_promisesFresh:
  assumes "promisesFresh st"
  shows "promisesFresh (onDisconnect st)"
proof -
  let ?st1 = "(emit Close ((clearInterval (pingInterval st) st)
      \<lparr>pingInterval := None, connection := None\<rparr>))\<lparr>closeOnce := []\<rparr>"
  have f: "settled ?st1 = settled st" "nextPromise ?st1 = nextPromise st" "closeOnce ?st1 = []"
    by (simp_all add: emit_def clearInterval_def split: option.splits)
  have o: "onDisconnect st = fold resolve (closeOnce st) ?st1"
    by (simp add: onDisconnect_def emitClose_def emit_def clearInterval_def split: option.splits)
  show ?thesis
    using assms
    by (auto simp add: o promisesFresh_def list_all_iff fold_resolve_settled fold_resolve_fields f)
qed

lemma step_promisesFresh:
  assumes "promisesFresh st"
  shows "promisesFresh (step d s st)"
proof (cases s)
  case (TransportConnect c)
  with assms show ?thesis by (simp add: onConnect_promises cong: promisesFresh_cong)
next
  case (ConnectionMessage m)
  with assms show ?thesis by (simp add: onMessage_promises cong: promisesFresh_cong)
next
  case ConnectionClose
  with assms show ?thesis by (simp add: onDisconnect_promisesFresh)
next
  case (DecodeSettled k)
  with assms show ?thesis by (simp add: onDecodeSettled_promises cong: promisesFresh_cong)
next
  case (Tick t)
  with assms show ?thesis
    by (simp add: sendHeartbeat_def sendBytes_promises cong: promisesFresh_cong)
next
  case (CallSendBytes b)
  with assms show ?thesis by (simp add: sendBytes_promises cong: promisesFresh_cong)
next
  case (CallSwitchRooms r)
  with assms show ?thesis
    by (simp add: switchRooms_def sendBytes_promises cong: promisesFresh_cong)
next
  case CallClose
  show ?thesis
  proof (cases "connection st")
    case None
    with assms CallClose show ?thesis
      by (auto simp add: close_disconnected promisesFresh_def list_all_iff intro!: less_SucI)
  next
    case (Some c)
    with assms CallClose show ?thesis
      by (auto simp add: close_connected promisesFresh_def list_all_iff intro!: less_SucI)
  qed
qed

lemma run_promisesFresh: "promisesFresh st \<Longrightarrow> promisesFresh (run d evs st)"
  unfolding run_def
  by (induction evs arbitrary: st) (simp_all add: step_promisesFresh)

lemma close_connected_pending:
  assumes "promisesFresh st" and "connection st = Some c"
  shows "pending (nextPromise st) (snd (close st))"
  using assms
  by (auto simp add: close_connected pending_def promisesFresh_def list_all_iff
      intro!: less_SucI)

lemma freshClient_promisesFresh: "promisesFresh freshClient"
  unfolding freshClient_def by (rule promisesFresh_init)

lemma connectedClient_promisesFresh: "promisesFresh connectedClient"
  by (simp add: promisesFresh_def connectedClient_eq freshClient_eq)

subsection \<open>Heartbeats after connect time\<close>

text \<open>The rest of the heartbeat schedule: a tick of an armed timer on a connected client
  sends one heartbeat with the room id of connect time, and after the close event the
  client's timer is disarmed and a heartbeat would find no connection.\<close>

lemma tick_sends_heartbeat:
  assumes "connection st = Some c" and "t \<in> fst ` set (intervals st)"
  shows "step d (Tick t) st =
     st\<lparr>trace := trace st @
        [ConnSendBytes c (createBaseWebcastPushFrame d (heartbeatFrame d (webSocketParams st)))]\<rparr>"
  using assms by (simp add: sendHeartbeat_def sendBytes_def)

lemma no_heartbeat_after_close:
  "connection (onDisconnect st) = None"
  "pingInterval st = Some t \<Longrightarrow> t \<notin> fst ` set (intervals (onDisconnect st))"
  "trace (sendHeartbeat d (onDisconnect st)) = trace (onDisconnect st)"
proof -
  show c: "connection (onDisconnect st) = None"
    by (simp add: onDisconnect_def emitClose_def fold_resolve_fields emit_def)
  show "pingInterval st = Some t \<Longrightarrow> t \<notin> fst ` set (intervals (onDisconnect st))"
    by (auto simp add: onDisconnect_def emitClose_def fold_resolve_fields emit_def
        clearInterval_def)
  show "trace (sendHeartbeat d (onDisconnect st)) = trace (onDisconnect st)"
    by (simp add: sendHeartbeat_def sendBytes_def c)
qed

subsection \<open>Suspended handlers along a run\<close>

lemma dropDecode_fields [simp]:
  "trace (dropDecode k st) = trace st"
  "connection (dropDecode k st) = connection st"
  "nextDecode (dropDecode k st) = nextDecode st"
  "decoding (dropDecode k st) = filter (\<lambda>(j, _). j \<noteq> k) (decoding st)"
  by (simp_all add: dropDecode_def)

lemma map_of_filter_other:
  "j \<noteq> k \<Longrightarrow> map_of (filter (\<lambda>(i, _). i \<noteq> k) xs) j = map_of xs j"
  by (induction xs) auto

lemma map_of_append_first:
  "map_of xs k = Some v \<Longrightarrow> map_of (xs @ ys) k = Some v"
  by (simp add: map_add_Some_iff)

lemma onDecodeSettled_found:
  "map_of (decoding st) k = Some res \<Longrightarrow>
   onDecodeSettled d k st = onDecoded d res (dropDecode k st)"
  by (simp add: onDecodeSettled_def)

text \<open>What a handler does depends neither on the trace so far nor on the handlers that are
  suspended: with another trace and other suspended handlers it appends the same effects
  and leaves the same client.\<close>

lemma sendBytes_aside:
  "snd (sendBytes b (st\<lparr>decoding := q, trace := t\<rparr>)) =
     (snd (sendBytes b st))\<lparr>decoding := q,
        trace := t @ drop (length (trace st)) (trace (snd (sendBytes b st)))\<rparr>"
  by (simp add: sendBytes_def split: option.splits)

lemma onDecoded_aside:
  "onDecoded d res (st\<lparr>decoding := q, trace := t\<rparr>) =
     (onDecoded d res st)\<lparr>decoding := q,
        trace := t @ drop (length (trace st)) (trace (onDecoded d res st))\<rparr>"
  by (cases res)
    (simp_all add: onDecoded_container onDecoded_error cong: if_cong option.case_cong)

lemma onConnect_aside:
  "onConnect d c (st\<lparr>decoding := q, trace := t\<rparr>) =
     (onConnect d c st)\<lparr>decoding := q,
        trace := t @ drop (length (trace st)) (trace (onConnect d c st))\<rparr>"
  by (simp add: onConnect_def sendHeartbeat_def sendBytes_def setInterval_def Let_def
      split: option.splits)

lemma resolve_aside:
  "resolve p (st\<lparr>decoding := q, trace := t\<rparr>) =
     (resolve p st)\<lparr>decoding := q,
        trace := t @ drop (length (trace st)) (trace (resolve p st))\<rparr>"
  by (simp add: resolve_def)

lemma resolve_trace: "\<exists>zs. trace (resolve p st) = trace st @ zs"
  by (simp add: resolve_def)

lemma fold_resolve_aside:
  "fold resolve ps (st\<lparr>decoding := q, trace := t\<rparr>) =
     (fold resolve ps st)\<lparr>decoding := q,
        trace := t @ drop (length (trace st)) (trace (fold resolve ps st))\<rparr>"
proof (induction ps arbitrary: st t)
  case Nil
  show ?case by simp
next
  case (Cons p ps)
  obtain zs where zs: "trace (resolve p st) = trace st @ zs"
    using resolve_trace by blast
  obtain ws where ws: "trace (fold resolve ps (resolve p st)) = trace (resolve p st) @ ws"
    using fold_resolve_trace by blast
  have r: "resolve p (st\<lparr>decoding := q, trace := t\<rparr>) =
      (resolve p st)\<lparr>decoding := q, trace := t @ zs\<rparr>"
    by (simp add: resolve_aside zs)
  have "fold resolve (p # ps) (st\<lparr>decoding := q, trace := t\<rparr>) =
      fold resolve ps ((resolve p st)\<lparr>decoding := q, trace := t @ zs\<rparr>)"
    by (simp only: fold_simps r)
  also have "\<dots> = (fold resolve ps (resolve p st))\<lparr>decoding := q, trace := (t @ zs) @ ws\<rparr>"
    by (simp only: Cons.IH ws append_eq_conv_conj) simp
  finally show ?case by (simp add: zs ws)
qed

lemma emitClose_aside:
  "emitClose (st\<lparr>decoding := q, trace := t\<rparr>) =
     (emitClose st)\<lparr>decoding := q,
        trace := t @ drop (length (trace st)) (trace (emitClose st))\<rparr>"
proof -
  let ?st1 = "(emit Close st)\<lparr>closeOnce := []\<rparr>"
  obtain ws where ws: "trace (fold resolve (closeOnce st) ?st1) = trace ?st1 @ ws"
    using fold_resolve_trace by blast
  have t1: "trace ?st1 = trace st @ [Emit Close]"
    by (simp add: emit_def)
  have a: "(emit Close (st\<lparr>decoding := q, trace := t\<rparr>))\<lparr>closeOnce := []\<rparr> =
      ?st1\<lparr>decoding := q, trace := t @ [Emit Close]\<rparr>"
    by (simp add: emit_def)
  have c: "closeOnce (st\<lparr>decoding := q, trace := t\<rparr>) = closeOnce st"
    by simp
  have "emitClose (st\<lparr>decoding := q, trace := t\<rparr>) =
      fold resolve (closeOnce st) (?st1\<lparr>decoding := q, trace := t @ [Emit Close]\<rparr>)"
    by (simp only: emitClose_def a c)
  also have "\<dots> = (fold resolve (closeOnce st) ?st1)\<lparr>decoding := q,
      trace := (t @ [Emit Close]) @ ws\<rparr>"
    by (simp only: fold_resolve_aside ws append_eq_conv_conj) simp
  finally show ?thesis by (simp add: emitClose_def ws t1)
qed

lemma onDisconnect_aside:
  "onDisconnect (st\<lparr>decoding := q, trace := t\<rparr>) =
     (onDisconnect st)\<lparr>decoding := q,
        trace := t @ drop (length (trace st)) (trace (onDisconnect st))\<rparr>"
proof -
  let ?st1 = "(clearInterval (pingInterval st) st)\<lparr>pingInterval := None, connection := None\<rparr>"
  have a: "(clearInterval (pingInterval (st\<lparr>decoding := q, trace := t\<rparr>))
        (st\<lparr>decoding := q, trace := t\<rparr>))\<lparr>pingInterval := None, connection := None\<rparr> =
      ?st1\<lparr>decoding := q, trace := t\<rparr>"
    by (simp add: clearInterval_def split: option.splits)
  have t1: "trace ?st1 = trace st"
    by (simp add: clearInterval_def split: option.splits)
  have "onDisconnect (st\<lparr>decoding := q, trace := t\<rparr>) = emitClose (?st1\<lparr>decoding := q, trace := t\<rparr>)"
    by (simp only: onDisconnect_def a)
  also have "\<dots> = (emitClose ?st1)\<lparr>decoding := q,
      trace := t @ drop (length (trace ?st1)) (trace (emitClose ?st1))\<rparr>"
    by (rule emitClose_aside)
  finally show ?thesis by (simp only: onDisconnect_def t1)
qed

lemma close_aside:
  "snd (close (st\<lparr>decoding := q, trace := t\<rparr>)) =
     (snd (close st))\<lparr>decoding := q,
        trace := t @ drop (length (trace st)) (trace (snd (close st)))\<rparr>"
  by (simp add: close_def Let_def resolve_def split: option.splits)

lemma fold_resolve_decoding:
  "decoding (fold resolve ps st) = decoding st"
  "nextDecode (fold resolve ps st) = nextDecode st"
  by (induction ps arbitrary: st) (simp_all add: resolve_def)

lemma decoding_unchanged:
  "decoding (snd (sendBytes b st)) = decoding st"
  "decoding (onDecoded d res st) = decoding st"
  "decoding (onConnect d c st) = decoding st"
  "decoding (onDisconnect st) = decoding st"
  "decoding (snd (close st)) = decoding st"
proof -
  show "decoding (snd (sendBytes b st)) = decoding st"
    by (simp add: sendBytes_def split: option.splits)
  show "decoding (onDecoded d res st) = decoding st"
    by (cases res) (simp_all add: onDecoded_container onDecoded_error)
  show "decoding (onConnect d c st) = decoding st"
    by (simp add: onConnect_def sendHeartbeat_def sendBytes_def setInterval_def Let_def
        split: option.splits)
  show "decoding (onDisconnect st) = decoding st"
    by (simp add: onDisconnect_def emitClose_def fold_resolve_decoding emit_def
        clearInterval_def split: option.splits)
  show "decoding (snd (close st)) = decoding st"
    by (simp add: close_def Let_def resolve_def split: option.splits)
qed

lemma nextDecode_unchanged:
  "nextDecode (snd (sendBytes b st)) = nextDecode st"
  "nextDecode (onDecoded d res st) = nextDecode st"
  "nextDecode (onConnect d c st) = nextDecode st"
  "nextDecode (onDisconnect st) = nextDecode st"
  "nextDecode (snd (close st)) = nextDecode st"
proof -
  show "nextDecode (snd (sendBytes b st)) = nextDecode st"
    by (simp add: sendBytes_def split: option.splits)
  show "nextDecode (onDecoded d res st) = nextDecode st"
    by (cases res) (simp_all add: onDecoded_container onDecoded_error)
  show "nextDecode (onConnect d c st) = nextDecode st"
    by (simp add: onConnect_def sendHeartbeat_def sendBytes_def setInterval_def Let_def
        split: option.splits)
  show "nextDecode (onDisconnect st) = nextDecode st"
    by (simp add: onDisconnect_def emitClose_def fold_resolve_decoding emit_def
        clearInterval_def split: option.splits)
  show "nextDecode (snd (close st)) = nextDecode st"
    by (simp add: close_def Let_def resolve_def split: option.splits)
qed

lemma step_nextDecode: "nextDecode st \<le> nextDecode (step d s st)"
proof (cases s)
  case (ConnectionMessage m)
  then show ?thesis by (cases m) (simp_all add: onMessage_text onMessage_binary)
next
  case (DecodeSettled k)
  then show ?thesis
    by (simp add: onDecodeSettled_def nextDecode_unchanged split: option.splits)
qed (simp_all add: nextDecode_unchanged sendHeartbeat_def switchRooms_def)

lemma step_aside:
  assumes "s \<noteq> DecodeSettled k" and "k < nextDecode st"
  shows "step d s ((dropDecode k st)\<lparr>trace := t\<rparr>) =
     (dropDecode k (step d s st))\<lparr>trace := t @ drop (length (trace st)) (trace (step d s st))\<rparr>"
proof (cases s)
  case (TransportConnect c)
  then show ?thesis
    by (simp add: dropDecode_def onConnect_aside decoding_unchanged)
next
  case (ConnectionMessage m)
  with assms(2) show ?thesis
    by (cases m) (simp_all add: dropDecode_def onMessage_text onMessage_binary)
next
  case ConnectionClose
  then show ?thesis
    by (simp add: dropDecode_def onDisconnect_aside decoding_unchanged)
next
  case (DecodeSettled j)
  with assms(1) have jk: "j \<noteq> k" by simp
  show ?thesis
  proof (cases "map_of (decoding st) j")
    case None
    with jk DecodeSettled show ?thesis
      by (simp add: onDecodeSettled_def dropDecode_def map_of_filter_other)
  next
    case (Some res)
    let ?Fj = "filter (\<lambda>(i, _). i \<noteq> j)" and ?Fk = "filter (\<lambda>(i, _). i \<noteq> k)"
    let ?D = "drop (length (trace st)) (trace (onDecoded d res st))"
    have c: "?Fj (?Fk (decoding st)) = ?Fk (?Fj (decoding st))"
      by (simp add: conj_commute)
    have m: "map_of (decoding ((dropDecode k st)\<lparr>trace := t\<rparr>)) j = Some res"
      using Some jk by (simp add: map_of_filter_other)
    have e1: "dropDecode j ((dropDecode k st)\<lparr>trace := t\<rparr>) =
        st\<lparr>decoding := ?Fk (?Fj (decoding st)), trace := t\<rparr>"
      unfolding c [symmetric] by (simp add: dropDecode_def)
    have "step d s ((dropDecode k st)\<lparr>trace := t\<rparr>) =
        onDecoded d res (st\<lparr>decoding := ?Fk (?Fj (decoding st)), trace := t\<rparr>)"
      by (simp only: DecodeSettled step.simps onDecodeSettled_found [OF m] e1)
    also have "\<dots> = (onDecoded d res st)\<lparr>decoding := ?Fk (?Fj (decoding st)), trace := t @ ?D\<rparr>"
      by (rule onDecoded_aside)
    finally have l: "step d s ((dropDecode k st)\<lparr>trace := t\<rparr>) =
        (onDecoded d res st)\<lparr>decoding := ?Fk (?Fj (decoding st)), trace := t @ ?D\<rparr>" .
    have e2: "dropDecode j st = st\<lparr>decoding := ?Fj (decoding st), trace := trace st\<rparr>"
      by (simp add: dropDecode_def)
    have "step d s st = onDecoded d res (st\<lparr>decoding := ?Fj (decoding st), trace := trace st\<rparr>)"
      by (simp only: DecodeSettled step.simps onDecodeSettled_found [OF Some] e2)
    also have "\<dots> = (onDecoded d res st)\<lparr>decoding := ?Fj (decoding st),
        trace := trace st @ ?D\<rparr>"
      by (rule onDecoded_aside)
    finally have r: "step d s st = (onDecoded d res st)\<lparr>decoding := ?Fj (decoding st),
        trace := trace st @ ?D\<rparr>" .
    have "(dropDecode k (step d s st))\<lparr>trace := t @ drop (length (trace st)) (trace (step d s st))\<rparr> =
        (onDecoded d res st)\<lparr>decoding := ?Fk (?Fj (decoding st)), trace := t @ ?D\<rparr>"
      unfolding r by (simp add: dropDecode_def)
    with l show ?thesis by simp
  qed
next
  case (Tick x)
  then show ?thesis
    by (simp add: dropDecode_def sendHeartbeat_def sendBytes_aside decoding_unchanged)
next
  case (CallSendBytes b)
  then show ?thesis
    by (simp add: dropDecode_def sendBytes_aside decoding_unchanged)
next
  case (CallSwitchRooms r)
  then show ?thesis
    by (simp add: dropDecode_def switchRooms_def sendBytes_aside decoding_unchanged)
next
  case CallClose
  then show ?thesis
    by (simp add: dropDecode_def close_aside decoding_unchanged)
qed

lemma run_aside:
  "DecodeSettled k \<notin> set evs \<Longrightarrow> k < nextDecode st \<Longrightarrow>
   run d evs ((dropDecode k st)\<lparr>trace := t\<rparr>) =
     (dropDecode k (run d evs st))\<lparr>trace := t @ drop (length (trace st)) (trace (run d evs st))\<rparr>"
proof (induction evs arbitrary: st t)
  case Nil
  show ?case by (simp add: run_def)
next
  case (Cons e evs)
  from Cons.prems have e: "e \<noteq> DecodeSettled k" and evs: "DecodeSettled k \<notin> set evs"
    by auto
  from Cons.prems(2) step_nextDecode [of st d e] have k: "k < nextDecode (step d e st)"
    by simp
  obtain zs where zs: "trace (step d e st) = trace st @ zs"
    using step_trace by blast
  obtain ws where ws: "trace (run d evs (step d e st)) = trace (step d e st) @ ws"
    using run_trace by blast
  have "run d (e # evs) ((dropDecode k st)\<lparr>trace := t\<rparr>) =
      run d evs ((dropDecode k (step d e st))\<lparr>trace := t @ zs\<rparr>)"
    by (simp add: run_def step_aside [OF e Cons.prems(2)] zs)
  also have "\<dots> = (dropDecode k (run d evs (step d e st)))\<lparr>trace := (t @ zs) @ ws\<rparr>"
    by (simp add: Cons.IH [OF evs k] ws)
  also have "run d evs (step d e st) = run d (e # evs) st"
    by (simp add: run_def)
  finally show ?case
    using ws by (simp add: run_def zs)
qed

lemma map_of_decoding_step:
  assumes "s \<noteq> DecodeSettled k" and "map_of (decoding st) k = Some res"
  shows "map_of (decoding (step d s st)) k = Some res"
proof (cases s)
  case (ConnectionMessage m)
  with assms(2) show ?thesis
    by (cases m) (simp_all add: onMessage_text onMessage_binary map_of_append_first)
next
  case (DecodeSettled j)
  with assms show ?thesis
    by (simp add: onDecodeSettled_def decoding_unchanged map_of_filter_other
        split: option.splits)
qed (simp_all add: assms(2) decoding_unchanged sendHeartbeat_def switchRooms_def)

lemma map_of_decoding_run:
  "DecodeSettled k \<notin> set evs \<Longrightarrow> map_of (decoding st) k = Some res \<Longrightarrow>
   map_of (decoding (run d evs st)) k = Some res"
  unfolding run_def
proof (induction evs arbitrary: st)
  case Nil
  then show ?case by simp
next
  case (Cons e evs)
  from Cons.prems have e: "e \<noteq> DecodeSettled k" and evs: "DecodeSettled k \<notin> set evs"
    by auto
  from map_of_decoding_step [OF e Cons.prems(2)]
  have "map_of (decoding (step d e st)) k = Some res" .
  from Cons.IH [OF evs this] show ?case by simp
qed

lemma run_nextDecode: "nextDecode st \<le> nextDecode (run d evs st)"
  unfolding run_def
proof (induction evs arbitrary: st)
  case Nil
  show ?case by simp
next
  case (Cons e evs)
  from step_nextDecode [of st d e] Cons.IH [of "step d e st"] show ?case by simp
qed

lemma decodesFresh_init: "decodesFresh (TikTokWsClient d u c p h opts i)"
  by (simp add: decodesFresh_def TikTokWsClient_def Let_def)

lemma step_decodesFresh:
  assumes "decodesFresh st"
  shows "decodesFresh (step d s st)"
proof (cases s)
  case (ConnectionMessage m)
  with assms show ?thesis
    by (cases m)
      (auto simp add: decodesFresh_def onMessage_text onMessage_binary list_all_iff
        intro!: less_SucI)
next
  case (DecodeSettled j)
  with assms show ?thesis
    by (auto simp add: decodesFresh_def onDecodeSettled_def decoding_unchanged
        nextDecode_unchanged list_all_iff split: option.splits)
qed (use assms in \<open>simp_all add: decodesFresh_def decoding_unchanged nextDecode_unchanged
    sendHeartbeat_def switchRooms_def\<close>)

lemma run_decodesFresh: "decodesFresh st \<Longrightarrow> decodesFresh (run d evs st)"
  unfolding run_def
  by (induction evs arbitrary: st) (simp_all add: step_decodesFresh)

lemma decodesFresh_lookup:
  "decodesFresh st \<Longrightarrow> map_of (decoding st) (nextDecode st) = None"
  by (auto simp add: decodesFresh_def list_all_iff map_of_eq_None_iff)

section \<open>Heartbeat at connect time\<close>

text \<open>
  C1 (the code at the failing input). \<^verbatim>\<open>onConnect\<close> calls \<^verbatim>\<open>sendHeartbeat\<close> before
  it stores the connection, so the heartbeat of connect time finds no connection and is
  dropped: after the transport's connect event the fresh client for room 123 has handed no
  bytes to the connection, and the first heartbeat (carrying room 123) goes out at the first
  tick of the interval timer.
\<close>

theorem connect_time_heartbeat_is_dropped:
  "sent (trace (run stubDeps [TransportConnect 1] freshClient)) = [] \<and>
   sent (trace (run stubDeps [TransportConnect 1, Tick 0] freshClient)) =
     [createBaseWebcastPushFrame stubDeps
        (heartbeatFrame stubDeps \<lparr> room_id = ''123'', other_params = [] \<rparr>)]"
proof -
  have c: "step stubDeps (TransportConnect 1) freshClient = connectedClient"
    by (simp add: connectedClient_def)
  have "sent (trace connectedClient) = []"
    by (simp add: connectedClient_eq freshClient_eq)
  moreover have "sent (trace (step stubDeps (Tick 0) connectedClient)) =
     [createBaseWebcastPushFrame stubDeps
        (heartbeatFrame stubDeps \<lparr> room_id = ''123'', other_params = [] \<rparr>)]"
    by (simp add: connectedClient_eq freshClient_eq sendHeartbeat_def sendBytes_def)
  ultimately show ?thesis
    by (simp only: run_def fold_simps c id_apply comp_apply)
qed

section \<open>Outbound frames\<close>

text \<open>
  C2, as amended. Every frame the client builds (heartbeat, room-enter and ack) carries the
  payload encoding \<^verbatim>\<open>'pb'\<close>.
\<close>

theorem outbound_frames_payloadEncoding_pb:
  "frame_payloadEncoding (heartbeatFrame d params) = Some ''pb'' \<and>
   frame_payloadEncoding (imEnterRoomFrame d r) = Some ''pb'' \<and>
   frame_payloadEncoding (ackFrame d l ext) = Some ''pb''"
  by (simp add: heartbeatFrame_def imEnterRoomFrame_def ackFrame_def)

text \<open>
  C2 as stated fails: none of the three frames carries the payload encoding
  \<^verbatim>\<open>'protobuf'\<close>.
\<close>

theorem payloadEncoding_protobuf_counterexample:
  "frame_payloadEncoding (heartbeatFrame stubDeps \<lparr> room_id = ''123'', other_params = [] \<rparr>)
     \<noteq> Some ''protobuf'' \<and>
   frame_payloadEncoding (imEnterRoomFrame stubDeps ''456'') \<noteq> Some ''protobuf'' \<and>
   frame_payloadEncoding (ackFrame stubDeps ''L1'' ''abc'') \<noteq> Some ''protobuf''"
  by (simp add: heartbeatFrame_def imEnterRoomFrame_def ackFrame_def)

text \<open>
  C8, as amended. \<^verbatim>\<open>switchRooms(r)\<close> builds one frame (payload type \<^verbatim>\<open>im_enter_room\<close>,
  payload the encoding of the room-enter message with the room id \<open>r\<close> and the fixed
  fields) and gives it to \<^verbatim>\<open>sendBytes\<close>. On a connected client exactly this one frame is
  handed to the connection and nothing else changes; on a client without a connection
  nothing is sent and nothing changes. In both cases the parameters of connect time, from
  which the heartbeat takes its room id, stay as they were.
\<close>

theorem switchRooms_frame:
  "(\<forall>c. connection st = Some c \<longrightarrow>
      switchRooms d r st =
        st\<lparr>trace := trace st @
           [ConnSendBytes c (createBaseWebcastPushFrame d
              \<lparr> frame_logId = None,
                frame_payloadEncoding = Some ''pb'',
                frame_payloadType = Some ''im_enter_room'',
                frame_payload = Some (imEnterRoomEncode d
                  \<lparr> roomId = r, roomTag = '''', liveRegion = '''', liveId = ''12'',
                    identity = ''audience'', cursor = '''', accountType = ''0'',
                    enterUniqueId = '''', filterWelcomeMsg = ''0'',
                    isAnchorContinueKeepMsg = False \<rparr>),
                frame_service = None,
                frame_method = None,
                frame_headers = None \<rparr>)]\<rparr>) \<and>
   (connection st = None \<longrightarrow> switchRooms d r st = st) \<and>
   webSocketParams (switchRooms d r st) = webSocketParams st \<and>
   heartbeatFrame d (webSocketParams (switchRooms d r st)) = heartbeatFrame d (webSocketParams st)"
  by (cases "connection st")
    (simp_all add: switchRooms_def sendBytes_def imEnterRoomFrame_def imEnterRoomMessage_def)

theorem switchRooms_frame_witness:
  "(connection connectedClient = Some 1 \<and>
    switchRooms stubDeps ''456'' connectedClient =
      connectedClient\<lparr>trace := trace connectedClient @
         [ConnSendBytes 1 (createBaseWebcastPushFrame stubDeps
            \<lparr> frame_logId = None,
              frame_payloadEncoding = Some ''pb'',
              frame_payloadType = Some ''im_enter_room'',
              frame_payload = Some (imEnterRoomEncode stubDeps
                \<lparr> roomId = ''456'', roomTag = '''', liveRegion = '''', liveId = ''12'',
                  identity = ''audience'', cursor = '''', accountType = ''0'',
                  enterUniqueId = '''', filterWelcomeMsg = ''0'',
                  isAnchorContinueKeepMsg = False \<rparr>),
              frame_service = None,
              frame_method = None,
              frame_headers = None \<rparr>)]\<rparr>) \<and>
   (connection freshClient = None \<and> switchRooms stubDeps ''456'' freshClient = freshClient)"
proof -
  have a: "connection connectedClient = Some 1" by (simp add: connectedClient_eq)
  have b: "connection freshClient = None" by (simp add: freshClient_eq)
  note t1 = switchRooms_frame [of connectedClient stubDeps "''456''", THEN conjunct1,
      rule_format, OF a]
  note t2 = switchRooms_frame [of freshClient stubDeps "''456''", THEN conjunct2,
      THEN conjunct1, rule_format, OF b]
  from a t1 b t2 show ?thesis by (intro conjI)
qed

text \<open>
  C8 as stated fails: called on the client as the constructor leaves it, before the
  transport has connected, \<^verbatim>\<open>switchRooms('456')\<close> produces no outbound frame.
\<close>

theorem switchRooms_without_connection_counterexample:
  "connection freshClient = None \<and>
   trace (switchRooms stubDeps ''456'' freshClient) = trace freshClient \<and>
   sent (trace (switchRooms stubDeps ''456'' freshClient)) = []"
  by (simp add: switchRooms_def sendBytes_def freshClient_eq)

section \<open>Sending without a connection\<close>

text \<open>
  C9. \<^verbatim>\<open>sendBytes\<close> returns false and leaves the client as it was when there is no
  connection; otherwise it hands the bytes to the connection and returns true. It has no
  failing branch.
\<close>

theorem sendBytes_result:
  "(connection st = None \<longrightarrow> sendBytes data st = (False, st)) \<and>
   (\<forall>c. connection st = Some c \<longrightarrow>
      sendBytes data st = (True, st\<lparr>trace := trace st @ [ConnSendBytes c data]\<rparr>))"
  by (simp add: sendBytes_def)

theorem sendBytes_result_witness:
  "connection freshClient = None \<and> sendBytes [1, 2] freshClient = (False, freshClient) \<and>
   connection connectedClient = Some 1 \<and>
   sendBytes [1, 2] connectedClient =
     (True, connectedClient\<lparr>trace := trace connectedClient @ [ConnSendBytes 1 [1, 2]]\<rparr>)"
proof -
  have a: "connection freshClient = None" by (simp add: freshClient_eq)
  have b: "connection connectedClient = Some 1" by (simp add: connectedClient_eq)
  from sendBytes_result [of freshClient "[1, 2]"] a
  have "sendBytes [1, 2] freshClient = (False, freshClient)" by blast
  moreover from sendBytes_result [of connectedClient "[1, 2]"] b
  have "sendBytes [1, 2] connectedClient =
     (True, connectedClient\<lparr>trace := trace connectedClient @ [ConnSendBytes 1 [1, 2]]\<rparr>)"
    by blast
  ultimately show ?thesis using a b by blast
qed

section \<open>Inbound messages\<close>

text \<open>
  C5. Whatever the message, the first thing \<^verbatim>\<open>onMessage\<close> does is to publish it on
  \<^verbatim>\<open>webSocketData\<close>. A message that is not binary is then published on
  \<^verbatim>\<open>unknownResponse\<close> and that is all: the decoder is not called and no handler is
  left suspended, nothing is sent, and no \<^verbatim>\<open>messageDecodingFailed\<close> is emitted.
\<close>

theorem onMessage_raw_data_first_and_text_stops:
  "(\<exists>rest. trace (onMessage d message st) = trace st @ Emit (WebSocketData message) # rest) \<and>
   onMessage d (Utf8Message s) st =
     st\<lparr>trace := trace st @
         [Emit (WebSocketData (Utf8Message s)), Emit (UnknownResponse (Utf8Message s))]\<rparr>"
  by (cases message) (simp_all add: onMessage_text onMessage_binary)

text \<open>
  C3, as amended. Let a decoded container carry a fetch result that needs an
  acknowledgement, and let the handler be resumed on it in any state of the client. If the
  log id is a non-empty string and the client has a connection at that moment, exactly one
  frame is handed to the connection before the fetch result is published: the same log id,
  payload type \<^verbatim>\<open>ack\<close>, payload the text encoding of \<^verbatim>\<open>internalExt\<close>. If the client has no
  connection by then, or the log id is absent or empty, no frame is sent and no failure is
  reported: the fetch result is published as if no acknowledgement had been asked for.
\<close>

theorem ack_correlated_by_logId:
  assumes "protoMessageFetchResult dc = Some r" and "needsAck r"
  shows "(\<forall>c l. connection st = Some c \<and> logId dc = Some l \<and> l \<noteq> [] \<longrightarrow>
            onDecoded d (Inr dc) st =
              st\<lparr>trace := trace st @
                 [ConnSendBytes c (createBaseWebcastPushFrame d
                    \<lparr> frame_logId = Some l,
                      frame_payloadEncoding = Some ''pb'',
                      frame_payloadType = Some ''ack'',
                      frame_payload = Some (textEncode d (internalExt r)),
                      frame_service = None,
                      frame_method = None,
                      frame_headers = None \<rparr>),
                  Emit (ProtoMessageFetchResult r)] @
                 (if payloadType dc = ''im_enter_room_resp''
                  then [Emit (ImEnteredRoom dc)] else [])\<rparr>) \<and>
         (connection st = None \<or> logId dc = None \<or> logId dc = Some [] \<longrightarrow>
            onDecoded d (Inr dc) st =
              st\<lparr>trace := trace st @
                 [Emit (ProtoMessageFetchResult r)] @
                 (if payloadType dc = ''im_enter_room_resp''
                  then [Emit (ImEnteredRoom dc)] else [])\<rparr>)"
  using assms
  by (auto simp add: onDecoded_container ackFrame_def split: option.splits)

theorem ack_correlated_by_logId_witness:
  "(connection connectedClient = Some 1 \<and>
    onDecoded stubDeps
      (Inr \<lparr> logId = Some ''L1'', payloadType = ''msg'',
             protoMessageFetchResult = Some \<lparr> needsAck = True, internalExt = ''abc'' \<rparr> \<rparr>)
      connectedClient =
      connectedClient\<lparr>trace := trace connectedClient @
         [ConnSendBytes 1 (createBaseWebcastPushFrame stubDeps
            \<lparr> frame_logId = Some ''L1'',
              frame_payloadEncoding = Some ''pb'',
              frame_payloadType = Some ''ack'',
              frame_payload = Some (textEncode stubDeps ''abc''),
              frame_service = None,
              frame_method = None,
              frame_headers = None \<rparr>),
          Emit (ProtoMessageFetchResult \<lparr> needsAck = True, internalExt = ''abc'' \<rparr>)]\<rparr>) \<and>
   (connection freshClient = None \<and>
    onDecoded stubDeps
      (Inr \<lparr> logId = Some ''L1'', payloadType = ''msg'',
             protoMessageFetchResult = Some \<lparr> needsAck = True, internalExt = ''abc'' \<rparr> \<rparr>)
      freshClient =
      freshClient\<lparr>trace := trace freshClient @
         [Emit (ProtoMessageFetchResult \<lparr> needsAck = True, internalExt = ''abc'' \<rparr>)]\<rparr>) \<and>
   (onDecoded stubDeps
      (Inr \<lparr> logId = None, payloadType = ''msg'',
             protoMessageFetchResult = Some \<lparr> needsAck = True, internalExt = ''q'' \<rparr> \<rparr>)
      connectedClient =
      connectedClient\<lparr>trace := trace connectedClient @
         [Emit (ProtoMessageFetchResult \<lparr> needsAck = True, internalExt = ''q'' \<rparr>)]\<rparr>)"
proof -
  let ?r1 = "\<lparr> needsAck = True, internalExt = ''abc'' \<rparr>"
  let ?dc1 = "\<lparr> logId = Some ''L1'', payloadType = ''msg'', protoMessageFetchResult = Some ?r1 \<rparr>"
  let ?r3 = "\<lparr> needsAck = True, internalExt = ''q'' \<rparr>"
  let ?dc3 = "\<lparr> logId = None, payloadType = ''msg'', protoMessageFetchResult = Some ?r3 \<rparr>"
  have c: "connection connectedClient = Some 1" by (simp add: connectedClient_eq)
  have n: "connection freshClient = None" by (simp add: freshClient_eq)
  have p1: "protoMessageFetchResult ?dc1 = Some ?r1" and n1: "needsAck ?r1"
    and p3: "protoMessageFetchResult ?dc3 = Some ?r3" and n3: "needsAck ?r3"
    by simp_all
  note t1 = ack_correlated_by_logId [OF p1 n1, of connectedClient stubDeps, THEN conjunct1,
      rule_format, of 1 "''L1''"]
  note t2 = ack_correlated_by_logId [OF p1 n1, of freshClient stubDeps, THEN conjunct2,
      rule_format]
  note t3 = ack_correlated_by_logId [OF p3 n3, of connectedClient stubDeps, THEN conjunct2,
      rule_format]
  have a1: "onDecoded stubDeps (Inr ?dc1) connectedClient =
      connectedClient\<lparr>trace := trace connectedClient @
         [ConnSendBytes 1 (createBaseWebcastPushFrame stubDeps
            \<lparr> frame_logId = Some ''L1'',
              frame_payloadEncoding = Some ''pb'',
              frame_payloadType = Some ''ack'',
              frame_payload = Some (textEncode stubDeps ''abc''),
              frame_service = None,
              frame_method = None,
              frame_headers = None \<rparr>),
          Emit (ProtoMessageFetchResult ?r1)]\<rparr>"
    using t1 c by simp
  have a2: "onDecoded stubDeps (Inr ?dc1) freshClient =
      freshClient\<lparr>trace := trace freshClient @ [Emit (ProtoMessageFetchResult ?r1)]\<rparr>"
    using t2 n by simp
  have a3: "onDecoded stubDeps (Inr ?dc3) connectedClient =
      connectedClient\<lparr>trace := trace connectedClient @ [Emit (ProtoMessageFetchResult ?r3)]\<rparr>"
    using t3 by simp
  from c a1 n a2 a3 show ?thesis by (intro conjI)
qed

text \<open>
  C3 as stated fails. The container that the decoder returns for the message \<open>[1]\<close> needs
  an acknowledgement and has the log id \<^verbatim>\<open>L1\<close>; when the connection closes while the
  decoder works, the handler is resumed on a client without a connection, and no frame at
  all is handed to a connection: the fetch result is published without an acknowledgement.
\<close>

theorem ack_after_close_counterexample:
  "deserializeWebSocketMessage stubDeps [1] =
     Inr \<lparr> logId = Some ''L1'', payloadType = ''msg'',
           protoMessageFetchResult = Some \<lparr> needsAck = True, internalExt = ''abc'' \<rparr> \<rparr> \<and>
   trace (run stubDeps
       [TransportConnect 1, ConnectionMessage (BinaryMessage [1]), ConnectionClose,
        DecodeSettled 0] freshClient) =
     trace freshClient @
       [Emit (WebSocketData (BinaryMessage [1])),
        Emit Close,
        Emit (ProtoMessageFetchResult \<lparr> needsAck = True, internalExt = ''abc'' \<rparr>)] \<and>
   sent (trace (run stubDeps
       [TransportConnect 1, ConnectionMessage (BinaryMessage [1]), ConnectionClose,
        DecodeSettled 0] freshClient)) = []"
proof -
  let ?dc = "\<lparr> logId = Some ''L1'', payloadType = ''msg'',
     protoMessageFetchResult = Some \<lparr> needsAck = True, internalExt = ''abc'' \<rparr> \<rparr>"
  let ?s2 = "connectedClient\<lparr>
     trace := trace freshClient @ [Emit (WebSocketData (BinaryMessage [1]))],
     decoding := [(0, Inr ?dc)], nextDecode := Suc 0\<rparr>"
  let ?s3 = "freshClient\<lparr>
     trace := trace freshClient @ [Emit (WebSocketData (BinaryMessage [1])), Emit Close],
     nextTimeout := Suc 0, decoding := [(0, Inr ?dc)], nextDecode := Suc 0\<rparr>"
  have d: "deserializeWebSocketMessage stubDeps [1] = Inr ?dc"
    by (simp add: stubDeps_def stubDecode_def)
  have 1: "step stubDeps (TransportConnect 1) freshClient = connectedClient"
    by (simp add: connectedClient_def)
  have 2: "step stubDeps (ConnectionMessage (BinaryMessage [1])) connectedClient = ?s2"
    by (simp add: onMessage_binary d) (simp add: connectedClient_eq freshClient_eq)
  have 3: "step stubDeps ConnectionClose ?s2 = ?s3"
    by (simp add: onDisconnect_def emitClose_def emit_def clearInterval_def
        connectedClient_eq freshClient_eq)
  have 4: "trace (step stubDeps (DecodeSettled 0) ?s3) =
      trace freshClient @
       [Emit (WebSocketData (BinaryMessage [1])), Emit Close,
        Emit (ProtoMessageFetchResult \<lparr> needsAck = True, internalExt = ''abc'' \<rparr>)]"
    by (simp add: onDecodeSettled_def dropDecode_def onDecoded_container freshClient_eq)
  have r: "run stubDeps
       [TransportConnect 1, ConnectionMessage (BinaryMessage [1]), ConnectionClose,
        DecodeSettled 0] freshClient = step stubDeps (DecodeSettled 0) ?s3"
    by (simp only: run_def fold_simps comp_apply 1 2 3)
  show ?thesis
    unfolding r 4 using d by (simp add: sent_append freshClient_eq)
qed

text \<open>
  C4. When the handler is resumed on a decoded container, in whatever state the client is
  by then, its effects are, in this order: if the container has a fetch result, the
  acknowledgement (when one is needed and can be sent) and then the
  \<^verbatim>\<open>protoMessageFetchResult\<close> event, whatever became of the acknowledgement; and, on its
  own condition, the \<^verbatim>\<open>imEnteredRoom\<close> event with the whole container when the payload
  type is \<^verbatim>\<open>im_enter_room_resp\<close>. One container can cause both. This is what the event loop
  runs when the decoder returns a container to a suspended handler.
\<close>

theorem fetch_result_and_room_entry_dispatch:
  "onDecoded d (Inr dc) st =
     st\<lparr>trace := trace st @
       (case protoMessageFetchResult dc of
          None \<Rightarrow> []
        | Some r \<Rightarrow>
            (if needsAck r
             then (case (connection st, logId dc) of
                     (Some c, Some l) \<Rightarrow>
                       if l = [] then []
                       else [ConnSendBytes c
                               (createBaseWebcastPushFrame d (ackFrame d l (internalExt r)))]
                   | _ \<Rightarrow> [])
             else []) @
            [Emit (ProtoMessageFetchResult r)]) @
       (if payloadType dc = ''im_enter_room_resp'' then [Emit (ImEnteredRoom dc)] else [])\<rparr> \<and>
   (\<forall>k. map_of (decoding st) k = Some (Inr dc) \<longrightarrow>
      step d (DecodeSettled k) st = onDecoded d (Inr dc) (dropDecode k st))"
proof (intro conjI allI impI)
  show "onDecoded d (Inr dc) st =
     st\<lparr>trace := trace st @
       (case protoMessageFetchResult dc of
          None \<Rightarrow> []
        | Some r \<Rightarrow>
            (if needsAck r
             then (case (connection st, logId dc) of
                     (Some c, Some l) \<Rightarrow>
                       if l = [] then []
                       else [ConnSendBytes c
                               (createBaseWebcastPushFrame d (ackFrame d l (internalExt r)))]
                   | _ \<Rightarrow> [])
             else []) @
            [Emit (ProtoMessageFetchResult r)]) @
       (if payloadType dc = ''im_enter_room_resp'' then [Emit (ImEnteredRoom dc)] else [])\<rparr>"
    by (rule onDecoded_container)
next
  fix k
  assume "map_of (decoding st) k = Some (Inr dc)"
  then show "step d (DecodeSettled k) st = onDecoded d (Inr dc) (dropDecode k st)"
    by (simp add: onDecodeSettled_def)
qed

theorem fetch_result_and_room_entry_dispatch_witness:
  "map_of (decoding (run stubDeps [TransportConnect 1, ConnectionMessage (BinaryMessage [2])]
       freshClient)) 0 =
     Some (Inr \<lparr> logId = Some ''L2'', payloadType = ''im_enter_room_resp'',
       protoMessageFetchResult = Some \<lparr> needsAck = True, internalExt = ''xyz'' \<rparr> \<rparr>) \<and>
   trace (step stubDeps (DecodeSettled 0)
       (run stubDeps [TransportConnect 1, ConnectionMessage (BinaryMessage [2])] freshClient)) =
     trace freshClient @
       [Emit (WebSocketData (BinaryMessage [2])),
        ConnSendBytes 1 (createBaseWebcastPushFrame stubDeps (ackFrame stubDeps ''L2'' ''xyz'')),
        Emit (ProtoMessageFetchResult \<lparr> needsAck = True, internalExt = ''xyz'' \<rparr>),
        Emit (ImEnteredRoom
          \<lparr> logId = Some ''L2'', payloadType = ''im_enter_room_resp'',
            protoMessageFetchResult = Some \<lparr> needsAck = True, internalExt = ''xyz'' \<rparr> \<rparr>)]"
proof -
  let ?dc = "\<lparr> logId = Some ''L2'', payloadType = ''im_enter_room_resp'',
     protoMessageFetchResult = Some \<lparr> needsAck = True, internalExt = ''xyz'' \<rparr> \<rparr>"
  let ?s2 = "connectedClient\<lparr>
     trace := trace freshClient @ [Emit (WebSocketData (BinaryMessage [2]))],
     decoding := [(0, Inr ?dc)], nextDecode := Suc 0\<rparr>"
  have d: "deserializeWebSocketMessage stubDeps [2] = Inr ?dc"
    by (simp add: stubDeps_def stubDecode_def)
  have 1: "step stubDeps (TransportConnect 1) freshClient = connectedClient"
    by (simp add: connectedClient_def)
  have 2: "step stubDeps (ConnectionMessage (BinaryMessage [2])) connectedClient = ?s2"
    by (simp add: onMessage_binary d) (simp add: connectedClient_eq freshClient_eq)
  have r: "run stubDeps [TransportConnect 1, ConnectionMessage (BinaryMessage [2])] freshClient
      = ?s2"
    by (simp only: run_def fold_simps comp_apply 1 2)
  have m: "map_of (decoding ?s2) 0 = Some (Inr ?dc)" by simp
  note t = fetch_result_and_room_entry_dispatch [of stubDeps ?dc]
  note e = t [of ?s2, THEN conjunct2, rule_format, OF m]
  note o = t [of "dropDecode 0 ?s2", THEN conjunct1]
  have c: "connection ?s2 = Some 1" by (simp add: connectedClient_eq)
  have "trace (onDecoded stubDeps (Inr ?dc) (dropDecode 0 ?s2)) =
     trace freshClient @
       [Emit (WebSocketData (BinaryMessage [2])),
        ConnSendBytes 1 (createBaseWebcastPushFrame stubDeps (ackFrame stubDeps ''L2'' ''xyz'')),
        Emit (ProtoMessageFetchResult \<lparr> needsAck = True, internalExt = ''xyz'' \<rparr>),
        Emit (ImEnteredRoom ?dc)]"
    by (subst o) (simp add: c)
  with m show ?thesis
    by (simp only: r e)
qed

text \<open>
  C6. Let a binary message arrive on which the decoder fails. Its arrival only publishes
  the raw-data event and suspends the handler. Whatever is handled before the decoder has
  returned (\<open>mid\<close>: the next message, its own decoding, anything else), the failure is then
  reported by one \<^verbatim>\<open>messageDecodingFailed\<close> event carrying the error, and nothing else of
  the client changes: the connection and the timer stay, nothing is sent, no close is
  requested. Everything that is handled afterwards (\<open>evs\<close>) has exactly the effects, and
  leaves exactly the client, that it has when the failure has not been reported: the
  failed message has no influence on any other.
\<close>

theorem decode_failure_is_isolated:
  assumes "decodesFresh st"
    and "deserializeWebSocketMessage d b = Inl err"
    and "DecodeSettled (nextDecode st) \<notin> set mid"
    and "DecodeSettled (nextDecode st) \<notin> set evs"
  shows "(let k = nextDecode st;
              st1 = run d (ConnectionMessage (BinaryMessage b) # mid) st;
              failed = [Emit (MessageDecodingFailed err)]
          in step d (ConnectionMessage (BinaryMessage b)) st =
               st\<lparr>trace := trace st @ [Emit (WebSocketData (BinaryMessage b))],
                  decoding := decoding st @ [(k, Inl err)],
                  nextDecode := Suc k\<rparr> \<and>
             step d (DecodeSettled k) st1 = (dropDecode k st1)\<lparr>trace := trace st1 @ failed\<rparr> \<and>
             run d (DecodeSettled k # evs) st1 =
               (dropDecode k (run d evs st1))\<lparr>trace :=
                  trace st1 @ failed @ drop (length (trace st1)) (trace (run d evs st1))\<rparr>)"
proof -
  let ?k = "nextDecode st"
  let ?s0 = "step d (ConnectionMessage (BinaryMessage b)) st"
  let ?st1 = "run d (ConnectionMessage (BinaryMessage b) # mid) st"
  let ?failed = "[Emit (MessageDecodingFailed err)]"
  have a: "?s0 = st\<lparr>trace := trace st @ [Emit (WebSocketData (BinaryMessage b))],
      decoding := decoding st @ [(?k, Inl err)], nextDecode := Suc ?k\<rparr>"
    by (simp add: onMessage_binary assms(2))
  have s1: "?st1 = run d mid ?s0" by (simp add: run_def)
  have "map_of (decoding ?s0) ?k = Some (Inl err)"
    unfolding a by (simp add: map_add_def decodesFresh_lookup [OF assms(1)])
  from map_of_decoding_run [OF assms(3) this]
  have m: "map_of (decoding ?st1) ?k = Some (Inl err)" by (simp add: s1)
  have "?k < nextDecode ?s0" unfolding a by simp
  with run_nextDecode [of ?s0 d mid] have k: "?k < nextDecode ?st1" by (simp add: s1)
  have f: "step d (DecodeSettled ?k) ?st1 = (dropDecode ?k ?st1)\<lparr>trace := trace ?st1 @ ?failed\<rparr>"
    by (simp add: onDecodeSettled_found [OF m] onDecoded_error)
  have rc: "\<And>e es s. run d (e # es) s = run d es (step d e s)"
    by (simp add: run_def)
  have "run d (DecodeSettled ?k # evs) ?st1 =
      run d evs ((dropDecode ?k ?st1)\<lparr>trace := trace ?st1 @ ?failed\<rparr>)"
    by (simp only: rc [of "DecodeSettled ?k"] f)
  also have "\<dots> = (dropDecode ?k (run d evs ?st1))\<lparr>trace :=
      (trace ?st1 @ ?failed) @ drop (length (trace ?st1)) (trace (run d evs ?st1))\<rparr>"
    by (rule run_aside [OF assms(4) k])
  finally have r: "run d (DecodeSettled ?k # evs) ?st1 =
      (dropDecode ?k (run d evs ?st1))\<lparr>trace :=
         trace ?st1 @ ?failed @ drop (length (trace ?st1)) (trace (run d evs ?st1))\<rparr>"
    by simp
  from a f r show ?thesis by (simp only: Let_def)
qed

lemma connectedClient_decodesFresh: "decodesFresh connectedClient"
  by (simp add: decodesFresh_def connectedClient_eq freshClient_eq)

theorem decode_failure_is_isolated_witness:
  "decodesFresh connectedClient \<and>
   deserializeWebSocketMessage stubDeps [9] = Inl (Error ''malformed'') \<and>
   DecodeSettled (nextDecode connectedClient) \<notin> set [ConnectionMessage (BinaryMessage [1])] \<and>
   DecodeSettled (nextDecode connectedClient) \<notin> set [DecodeSettled 1] \<and>
   (let k = nextDecode connectedClient;
        st1 = run stubDeps
          (ConnectionMessage (BinaryMessage [9]) # [ConnectionMessage (BinaryMessage [1])])
          connectedClient;
        failed = [Emit (MessageDecodingFailed (Error ''malformed''))]
    in step stubDeps (ConnectionMessage (BinaryMessage [9])) connectedClient =
         connectedClient\<lparr>trace := trace connectedClient @ [Emit (WebSocketData (BinaryMessage [9]))],
            decoding := decoding connectedClient @ [(k, Inl (Error ''malformed''))],
            nextDecode := Suc k\<rparr> \<and>
       step stubDeps (DecodeSettled k) st1 = (dropDecode k st1)\<lparr>trace := trace st1 @ failed\<rparr> \<and>
       run stubDeps (DecodeSettled k # [DecodeSettled 1]) st1 =
         (dropDecode k (run stubDeps [DecodeSettled 1] st1))\<lparr>trace :=
            trace st1 @ failed @
            drop (length (trace st1)) (trace (run stubDeps [DecodeSettled 1] st1))\<rparr>)"
proof -
  have h1: "decodesFresh connectedClient" by (rule connectedClient_decodesFresh)
  have h2: "deserializeWebSocketMessage stubDeps [9] = Inl (Error ''malformed'')"
    by (simp add: stubDeps_def stubDecode_def)
  have n: "nextDecode connectedClient = 0" by (simp add: connectedClient_eq freshClient_eq)
  have h3: "DecodeSettled (nextDecode connectedClient) \<notin> set [ConnectionMessage (BinaryMessage [1])]"
    by simp
  have h4: "DecodeSettled (nextDecode connectedClient) \<notin> set [DecodeSettled 1]"
    by (simp add: n)
  from h1 h2 h3 h4 decode_failure_is_isolated [OF h1 h2 h3 h4]
  show ?thesis by (intro conjI)
qed

text \<open>The two messages of the witness, delivered back to back before either decoding has
  returned: both raw-data events, then the failure of the first, then the acknowledgement
  and the fetch result of the second.\<close>

lemma back_to_back_messages:
  "trace (run stubDeps
       [ConnectionMessage (BinaryMessage [9]), ConnectionMessage (BinaryMessage [1]),
        DecodeSettled 0, DecodeSettled 1] connectedClient) =
     trace connectedClient @
       [Emit (WebSocketData (BinaryMessage [9])),
        Emit (WebSocketData (BinaryMessage [1])),
        Emit (MessageDecodingFailed (Error ''malformed'')),
        ConnSendBytes 1 (createBaseWebcastPushFrame stubDeps (ackFrame stubDeps ''L1'' ''abc'')),
        Emit (ProtoMessageFetchResult \<lparr> needsAck = True, internalExt = ''abc'' \<rparr>)]"
  by (simp add: run_def onMessage_binary onDecodeSettled_def dropDecode_def onDecoded_container
      onDecoded_error stubDeps_def stubDecode_def connectedClient_eq freshClient_eq)

section \<open>Handshake headers\<close>

lemma session_cookie_kept_by_default:
  "wsHeaders (TikTokWsClient d wsUrl cookieString params None opts ms)
     = [''Cookie'' \<mapsto> cookieString]"
  "h ''Cookie'' = None \<Longrightarrow>
   wsHeaders (TikTokWsClient d wsUrl cookieString params (Some h) opts ms)
     = h(''Cookie'' \<mapsto> cookieString)"
  by (auto simp add: TikTokWsClient_def mergeHeaders_def Let_def map_add_def split: option.splits)

text \<open>
  C10. The session cookie is the first entry of the header object and the caller's headers
  are spread over it. When the caller supplies a \<^verbatim>\<open>Cookie\<close> key, its value replaces the
  session cookie: the headers of the client, which are the headers of the handshake, are
  exactly the caller's.
\<close>

theorem caller_cookie_overrides_session_cookie:
  assumes "h ''Cookie'' = Some v"
  shows "wsHeaders (TikTokWsClient d wsUrl cookieString params (Some h) opts ms) ''Cookie'' = Some v \<and>
    wsHeaders (TikTokWsClient d wsUrl cookieString params (Some h) opts ms) = h \<and>
    (\<exists>url origin.
       trace (TikTokWsClient d wsUrl cookieString params (Some h) opts ms) =
         [ClientConnect url '''' origin h opts])"
proof -
  have "[''Cookie'' \<mapsto> cookieString] ++ h = h"
    using assms by (auto simp add: map_add_def split: option.splits)
  then show ?thesis
    using assms by (simp add: TikTokWsClient_def mergeHeaders_def Let_def)
qed

theorem caller_cookie_overrides_session_cookie_witness:
  "[''Cookie'' \<mapsto> ''mine'', ''User-Agent'' \<mapsto> ''ua''] ''Cookie'' = Some ''mine'' \<and>
   (wsHeaders (TikTokWsClient stubDeps ''wss://host/im'' ''sid=1''
       \<lparr> room_id = ''123'', other_params = [] \<rparr>
       (Some [''Cookie'' \<mapsto> ''mine'', ''User-Agent'' \<mapsto> ''ua'']) [] None) ''Cookie''
     = Some ''mine'' \<and>
    wsHeaders (TikTokWsClient stubDeps ''wss://host/im'' ''sid=1''
       \<lparr> room_id = ''123'', other_params = [] \<rparr>
       (Some [''Cookie'' \<mapsto> ''mine'', ''User-Agent'' \<mapsto> ''ua'']) [] None)
     = [''Cookie'' \<mapsto> ''mine'', ''User-Agent'' \<mapsto> ''ua''] \<and>
    (\<exists>url origin.
       trace (TikTokWsClient stubDeps ''wss://host/im'' ''sid=1''
         \<lparr> room_id = ''123'', other_params = [] \<rparr>
         (Some [''Cookie'' \<mapsto> ''mine'', ''User-Agent'' \<mapsto> ''ua'']) [] None) =
         [ClientConnect url '''' origin [''Cookie'' \<mapsto> ''mine'', ''User-Agent'' \<mapsto> ''ua''] []]))"
proof -
  have a: "[''Cookie'' \<mapsto> ''mine'', ''User-Agent'' \<mapsto> ''ua''] ''Cookie'' = Some ''mine''"
    by simp
  from a caller_cookie_overrides_session_cookie
    [where h = "[''Cookie'' \<mapsto> ''mine'', ''User-Agent'' \<mapsto> ''ua'']" and v = "''mine''", OF a]
  show ?thesis by (rule conjI)
qed

section \<open>Closing\<close>

text \<open>
  C7. On a connected client \<^verbatim>\<open>close()\<close> asks the connection to close with code 1000 and
  returns a promise that is not resolved; the promise stays unresolved through everything
  that happens before the close event, and the close event resolves it, after the close
  request. On a client without a connection \<^verbatim>\<open>close()\<close> resolves its promise at once and
  hands nothing to any connection.
\<close>

theorem close_completion:
  assumes "promisesFresh st" and "close st = (p, st')"
  shows "(\<forall>c. connection st = Some c \<longrightarrow>
            trace st' = trace st @ [ConnClose c 1000] \<and>
            p \<notin> set (settled st') \<and>
            (\<forall>evs. ConnectionClose \<notin> set evs \<longrightarrow>
               p \<notin> set (settled (run d evs st')) \<and>
               (\<exists>xs ys. trace (run d (evs @ [ConnectionClose]) st') =
                          trace st @ [ConnClose c 1000] @ xs @ [Resolved p] @ ys))) \<and>
         (connection st = None \<longrightarrow>
            st' = st\<lparr>nextPromise := Suc p, closeOnce := closeOnce st @ [p],
                      trace := trace st @ [Resolved p], settled := settled st @ [p]\<rparr>)"
proof (intro conjI allI impI)
  fix c
  assume c: "connection st = Some c"
  from assms(2) have "p = fst (close st)" and st': "st' = snd (close st)"
    by simp_all
  then have p: "p = nextPromise st"
    by (simp add: close_connected [OF c])
  show t: "trace st' = trace st @ [ConnClose c 1000]"
    by (simp add: st' close_connected [OF c])
  have pend: "pending p st'"
    unfolding p st' by (rule close_connected_pending [OF assms(1) c])
  then show "p \<notin> set (settled st')" by (simp add: pending_def)
  fix evs
  assume evs: "ConnectionClose \<notin> set evs"
  from run_pending [OF evs pend] have rp: "pending p (run d evs st')" .
  then show "p \<notin> set (settled (run d evs st'))" by (simp add: pending_def)
  obtain zs where zs: "trace (run d evs st') = trace st' @ zs"
    using run_trace by blast
  obtain xs ys where
    "trace (onDisconnect (run d evs st')) = trace (run d evs st') @ xs @ [Resolved p] @ ys"
    using onDisconnect_settles [OF rp] by blast
  then have "trace (run d (evs @ [ConnectionClose]) st') =
      trace st @ [ConnClose c 1000] @ (zs @ xs) @ [Resolved p] @ ys"
    by (simp add: run_snoc zs t)
  then show "\<exists>xs ys. trace (run d (evs @ [ConnectionClose]) st') =
      trace st @ [ConnClose c 1000] @ xs @ [Resolved p] @ ys" by blast
next
  assume n: "connection st = None"
  with assms show "st' = st\<lparr>nextPromise := Suc p, closeOnce := closeOnce st @ [p],
      trace := trace st @ [Resolved p], settled := settled st @ [p]\<rparr>"
    by (auto simp add: close_disconnected)
qed

theorem close_completion_witness:
  "(promisesFresh connectedClient \<and>
    close connectedClient = (0, snd (close connectedClient)) \<and>
    connection connectedClient = Some 1 \<and>
    ConnectionClose \<notin> set [ConnectionMessage (BinaryMessage [1]), Tick 0] \<and>
    trace (snd (close connectedClient)) = trace connectedClient @ [ConnClose 1 1000] \<and>
    0 \<notin> set (settled (snd (close connectedClient))) \<and>
    0 \<notin> set (settled (run stubDeps [ConnectionMessage (BinaryMessage [1]), Tick 0]
                        (snd (close connectedClient)))) \<and>
    (\<exists>xs ys. trace (run stubDeps ([ConnectionMessage (BinaryMessage [1]), Tick 0] @ [ConnectionClose])
                      (snd (close connectedClient))) =
       trace connectedClient @ [ConnClose 1 1000] @ xs @ [Resolved 0] @ ys)) \<and>
   (promisesFresh freshClient \<and>
    close freshClient = (0, snd (close freshClient)) \<and>
    connection freshClient = None \<and>
    snd (close freshClient) =
      freshClient\<lparr>nextPromise := Suc 0, closeOnce := closeOnce freshClient @ [0],
         trace := trace freshClient @ [Resolved 0], settled := settled freshClient @ [0]\<rparr>)"
proof -
  let ?evs = "[ConnectionMessage (BinaryMessage [1]), Tick 0]"
  have f1: "promisesFresh connectedClient" by (rule connectedClient_promisesFresh)
  have c1: "connection connectedClient = Some 1" by (simp add: connectedClient_eq)
  have k1: "close connectedClient = (0, snd (close connectedClient))"
    by (simp add: close_connected [OF c1]) (simp add: connectedClient_eq freshClient_eq)
  have e1: "ConnectionClose \<notin> set ?evs" by simp
  note t1 = close_completion [OF f1 k1, of stubDeps, THEN conjunct1, rule_format, OF c1]
  note a1 = t1 [THEN conjunct1]
  note a2 = t1 [THEN conjunct2, THEN conjunct1]
  note a3 = t1 [THEN conjunct2, THEN conjunct2, rule_format, OF e1]
  have f2: "promisesFresh freshClient" by (rule freshClient_promisesFresh)
  have c2: "connection freshClient = None" by (simp add: freshClient_eq)
  have k2: "close freshClient = (0, snd (close freshClient))"
    by (simp add: close_disconnected [OF c2 f2]) (simp add: freshClient_eq)
  note t2 = close_completion [OF f2 k2, of stubDeps, THEN conjunct2, rule_format, OF c2]
  show ?thesis
    using f1 k1 c1 e1 a1 a2 a3 f2 k2 c2 t2 by (intro conjI) (erule conjunct1 conjunct2 | assumption)+
qed

end
